theory Spec2Isabelle
  imports Complex_Main
begin

section \<open>Numbers\<close>

text \<open>
  A JavaScript number is an IEEE-754 binary64 value. The finite ones are modelled as the
  reals they denote, and every arithmetic operation of the source rounds its exact result
  to the nearest binary64 value, ties to even (\<open>fl\<close>), subnormal range included.
  Not modelled: overflow to an infinity (results of magnitude \<open>2^1024\<close> and more), the
  sign of zero, and NaN as a value (where the source can produce one, the model says so
  at that place). The model has one zero: \<open>parseFloat\<close> of \<open>-0\<close> is \<open>0\<close> here and
  \<open>-0\<close> in the source. The sign of a zero can reach the output of the source through
  the arc converter only (\<open>Math.atan2\<close>, a division by a zero), so the model says
  nothing about the numbers emitted for an arc whose parameters or current point hold a
  negative zero.
\<close>

type_synonym number = real

function exp_up :: "real \<Rightarrow> int" where
  "exp_up v = (if v < 2 then 0 else 1 + exp_up (v / 2))"
  by pat_completeness auto
termination
  by (relation "measure (\<lambda>v. nat \<lfloor>v\<rfloor>)") (auto, linarith)

function exp_down :: "real \<Rightarrow> int" where
  "exp_down v = (if v \<le> 0 \<or> 1 \<le> v then 0 else exp_down (2 * v) - 1)"
  by pat_completeness auto
termination
proof (relation "measure (\<lambda>v. nat \<lceil>1 / v\<rceil>)")
  show "wf (measure (\<lambda>v::real. nat \<lceil>1 / v\<rceil>))" by simp
next
  fix v :: real
  assume a: "\<not> (v \<le> 0 \<or> 1 \<le> v)"
  then have v: "0 < v" "v < 1" by auto
  then have "1 < 1 / v" by simp
  then have c: "2 \<le> \<lceil>1 / v\<rceil>" by linarith
  have "1 / (2 * v) = (1 / v) / 2" by simp
  also have "\<dots> \<le> of_int \<lceil>1 / v\<rceil> / 2" by (simp add: divide_right_mono)
  finally have "\<lceil>1 / (2 * v)\<rceil> \<le> \<lceil>of_int \<lceil>1 / v\<rceil> / (2::real)\<rceil>"
    by (rule ceiling_mono)
  also have "\<dots> < \<lceil>1 / v\<rceil>" using c by linarith
  finally have "nat \<lceil>1 / (2 * v)\<rceil> < nat \<lceil>1 / v\<rceil>" using c by linarith
  then show "(2 * v, v) \<in> measure (\<lambda>v. nat \<lceil>1 / v\<rceil>)" by simp
qed

declare exp_up.simps [simp del] exp_down.simps [simp del]

definition binary_exponent :: "real \<Rightarrow> int" where
  \<comment> \<open>for \<open>0 < v\<close>: the \<open>e\<close> with \<open>2^e \<le> v < 2^(e+1)\<close>\<close>
  "binary_exponent v = (if 1 \<le> v then exp_up v else exp_down v)"

definition round_half_even :: "real \<Rightarrow> int" where
  "round_half_even v =
     (let f = \<lfloor>v\<rfloor>; d = v - of_int f
      in if d < 1 / 2 then f else if 1 / 2 < d then f + 1
         else if even f then f else f + 1)"

definition ulp_of :: "real \<Rightarrow> real" where
  \<comment> \<open>spacing of the binary64 values around a positive \<open>v\<close> (53 significant bits,
      least normal exponent -1022)\<close>
  "ulp_of v = 2 powi (max (binary_exponent v) (- 1022) - 52)"

definition fl :: "real \<Rightarrow> number" where
  "fl v = (if v = 0 then 0
           else sgn v * of_int (round_half_even (\<bar>v\<bar> / ulp_of \<bar>v\<bar>)) * ulp_of \<bar>v\<bar>)"

definition js_add :: "number \<Rightarrow> number \<Rightarrow> number" where
  "js_add a b = fl (a + b)"

definition js_sub :: "number \<Rightarrow> number \<Rightarrow> number" where
  "js_sub a b = fl (a - b)"

definition js_mul :: "number \<Rightarrow> number \<Rightarrow> number" where
  "js_mul a b = fl (a * b)"

definition js_div :: "number \<Rightarrow> number \<Rightarrow> number" where
  \<comment> \<open>used only with a nonzero divisor (the literals 3 and a positive segment count)\<close>
  "js_div a b = fl (a / b)"

section \<open>Geometry primitives\<close>

record Point =
  pt_x :: number
  pt_y :: number

type_synonym CubicSegment = "Point \<times> Point \<times> Point \<times> Point"

definition lerp :: "number \<Rightarrow> number \<Rightarrow> number \<Rightarrow> number" where
  "lerp a b t = js_add a (js_mul (js_sub b a) t)"

definition cubicBezierPoint :: "Point \<Rightarrow> Point \<Rightarrow> Point \<Rightarrow> Point \<Rightarrow> number \<Rightarrow> Point" where
  "cubicBezierPoint p0 p1 p2 p3 t =
     (let x01 = lerp (pt_x p0) (pt_x p1) t;
          y01 = lerp (pt_y p0) (pt_y p1) t;
          x12 = lerp (pt_x p1) (pt_x p2) t;
          y12 = lerp (pt_y p1) (pt_y p2) t;
          x23 = lerp (pt_x p2) (pt_x p3) t;
          y23 = lerp (pt_y p2) (pt_y p3) t;
          x012 = lerp x01 x12 t;
          y012 = lerp y01 y12 t;
          x123 = lerp x12 x23 t;
          y123 = lerp y12 y23 t
      in \<lparr>pt_x = lerp x012 x123 t, pt_y = lerp y012 y123 t\<rparr>)"

definition split_piece :: "Point \<Rightarrow> Point \<Rightarrow> Point \<Rightarrow> Point \<Rightarrow> int \<Rightarrow> int \<Rightarrow> CubicSegment" where
  \<comment> \<open>the body of the loop of \<open>splitCubicBezier\<close> at counter \<open>i\<close>\<close>
  "split_piece p0 p1 p2 p3 segments i =
     (let t0 = js_div (of_int (i - 1)) (of_int segments);
          t1 = js_div (of_int i) (of_int segments);
          pStart = cubicBezierPoint p0 p1 p2 p3 t0;
          pMid1 = cubicBezierPoint p0 p1 p2 p3 (js_add t0 (js_div (js_sub t1 t0) 3));
          pMid2 = cubicBezierPoint p0 p1 p2 p3 (js_add t0 (js_div (js_mul 2 (js_sub t1 t0)) 3));
          pEnd = cubicBezierPoint p0 p1 p2 p3 t1
      in (pStart, pMid1, pMid2, pEnd))"

function split_loop ::
  "Point \<Rightarrow> Point \<Rightarrow> Point \<Rightarrow> Point \<Rightarrow> int \<Rightarrow> int \<Rightarrow> CubicSegment list \<Rightarrow> CubicSegment list" where
  "split_loop p0 p1 p2 p3 segments i result =
     (if i \<le> segments
      then split_loop p0 p1 p2 p3 segments (i + 1) (result @ [split_piece p0 p1 p2 p3 segments i])
      else result)"
  by pat_completeness auto
termination
  by (relation "measure (\<lambda>(p0, p1, p2, p3, segments, i, result). nat (segments + 1 - i))") auto

declare split_loop.simps [simp del]

definition splitCubicBezier ::
  "Point \<Rightarrow> Point \<Rightarrow> Point \<Rightarrow> Point \<Rightarrow> int \<Rightarrow> CubicSegment list" where
  "splitCubicBezier p0 p1 p2 p3 segments = split_loop p0 p1 p2 p3 segments 1 []"

definition lineToBezier :: "Point \<Rightarrow> Point \<Rightarrow> CubicSegment" where
  "lineToBezier p0 p1 =
     (let cp1 = \<lparr>pt_x = js_add (pt_x p0) (js_div (js_sub (pt_x p1) (pt_x p0)) 3),
                 pt_y = js_add (pt_y p0) (js_div (js_sub (pt_y p1) (pt_y p0)) 3)\<rparr>;
          cp2 = \<lparr>pt_x = js_add (pt_x p0) (js_div (js_mul 2 (js_sub (pt_x p1) (pt_x p0))) 3),
                 pt_y = js_add (pt_y p0) (js_div (js_mul 2 (js_sub (pt_y p1) (pt_y p0))) 3)\<rparr>
      in (p0, cp1, cp2, p1))"

section \<open>Strings and number conversion\<close>

text \<open>
  A string is a list of UTF-16 code units; the model has the code units below 256
  (\<open>char\<close>). The white space of \<open>\s\<close> and of \<open>trim\<close> in that range is tab, line
  feed, vertical tab, form feed, carriage return, space and no-break space.
\<close>

definition is_letter :: "char \<Rightarrow> bool" where
  \<comment> \<open>the character class \<open>[a-zA-Z]\<close>\<close>
  "is_letter c = (let n = (of_char c :: nat) in (97 \<le> n \<and> n \<le> 122) \<or> (65 \<le> n \<and> n \<le> 90))"

definition is_digit :: "char \<Rightarrow> bool" where
  "is_digit c = (let n = (of_char c :: nat) in 48 \<le> n \<and> n \<le> 57)"

definition is_space :: "char \<Rightarrow> bool" where
  "is_space c = (let n = (of_char c :: nat) in (9 \<le> n \<and> n \<le> 13) \<or> n = 32 \<or> n = 160)"

definition is_separator :: "char \<Rightarrow> bool" where
  \<comment> \<open>the character class \<open>[\s,]\<close>\<close>
  "is_separator c = (is_space c \<or> c = CHR '','')"

definition toUpperCase :: "char \<Rightarrow> char" where
  \<comment> \<open>on one code unit; only ever applied to a letter of \<open>[a-zA-Z]\<close>\<close>
  "toUpperCase c = (let n = (of_char c :: nat) in if 97 \<le> n \<and> n \<le> 122 then char_of (n - 32) else c)"

definition js_trim :: "string \<Rightarrow> string" where
  "js_trim s = rev (dropWhile is_space (rev (dropWhile is_space s)))"

function js_split :: "string \<Rightarrow> string list" where
  \<comment> \<open>\<open>s.split(/[\s,]+/)\<close>: the pieces between the separator runs, empty ones included\<close>
  "js_split s =
     (let piece = takeWhile (\<lambda>c. \<not> is_separator c) s;
          r = dropWhile (\<lambda>c. \<not> is_separator c) s
      in if r = [] then [piece] else piece # js_split (dropWhile is_separator r))"
  by pat_completeness auto
termination
proof (relation "measure length")
  show "wf (measure (length :: string \<Rightarrow> nat))" by simp
next
  fix s :: string and piece r
  assume r: "r = dropWhile (\<lambda>c. \<not> is_separator c) s" and ne: "r \<noteq> []"
  from ne obtain c cs where cs: "r = c # cs" by (cases r) auto
  with r have "is_separator c" by (metis hd_dropWhile list.sel(1) ne)
  then have "length (dropWhile is_separator r) \<le> length cs"
    using cs by (simp add: length_dropWhile_le)
  also have "\<dots> < length r" using cs by simp
  also have "\<dots> \<le> length s" using r by (simp add: length_dropWhile_le)
  finally show "(dropWhile is_separator r, s) \<in> measure length" by simp
qed

declare js_split.simps [simp del]

definition digit_value :: "char \<Rightarrow> nat" where
  "digit_value c = of_char c - 48"

definition digits_value :: "string \<Rightarrow> nat" where
  "digits_value ds = foldl (\<lambda>acc c. 10 * acc + digit_value c) 0 ds"

definition parseFloat :: "string \<Rightarrow> number option" where
  \<comment> \<open>The longest prefix that is a decimal literal, after leading white space; \<open>None\<close> is
      NaN. The strings it is given here hold no letter, so an exponent part and
      \<open>Infinity\<close> cannot occur.\<close>
  "parseFloat v =
     (let t = dropWhile is_space v;
          neg = (t \<noteq> [] \<and> hd t = CHR ''-'');
          u = (if t \<noteq> [] \<and> (hd t = CHR ''-'' \<or> hd t = CHR ''+'') then tl t else t);
          ip = takeWhile is_digit u;
          r = dropWhile is_digit u;
          fp = (if r \<noteq> [] \<and> hd r = CHR ''.'' then takeWhile is_digit (tl r) else [])
      in if ip = [] \<and> fp = [] then None
         else Some (fl ((if neg then - 1 else 1) *
                (of_nat (digits_value ip) + of_nat (digits_value fp) / 10 ^ length fp))))"

definition parseParams :: "string \<Rightarrow> number list" where
  "parseParams paramStr =
     map the (filter (\<lambda>v. v \<noteq> None) (map parseFloat (js_split (js_trim paramStr))))"

function dec_up :: "real \<Rightarrow> int" where
  "dec_up v = (if v < 10 then 1 else 1 + dec_up (v / 10))"
  by pat_completeness auto
termination
  by (relation "measure (\<lambda>v. nat \<lfloor>v\<rfloor>)") (auto, linarith)

function dec_down :: "real \<Rightarrow> int" where
  "dec_down v = (if v \<le> 0 \<or> 1 \<le> v then 1 else dec_down (10 * v) - 1)"
  by pat_completeness auto
termination
proof (relation "measure (\<lambda>v. nat \<lceil>1 / v\<rceil>)")
  show "wf (measure (\<lambda>v::real. nat \<lceil>1 / v\<rceil>))" by simp
next
  fix v :: real
  assume a: "\<not> (v \<le> 0 \<or> 1 \<le> v)"
  then have v: "0 < v" "v < 1" by auto
  then have "1 < 1 / v" by simp
  then have c: "2 \<le> \<lceil>1 / v\<rceil>" by linarith
  have "1 / (10 * v) = (1 / v) / 10" by simp
  also have "\<dots> \<le> of_int \<lceil>1 / v\<rceil> / 10" by (simp add: divide_right_mono)
  finally have "\<lceil>1 / (10 * v)\<rceil> \<le> \<lceil>of_int \<lceil>1 / v\<rceil> / (10::real)\<rceil>"
    by (rule ceiling_mono)
  also have "\<dots> < \<lceil>1 / v\<rceil>" using c by linarith
  finally have "nat \<lceil>1 / (10 * v)\<rceil> < nat \<lceil>1 / v\<rceil>" using c by linarith
  then show "(10 * v, v) \<in> measure (\<lambda>v. nat \<lceil>1 / v\<rceil>)" by simp
qed

declare dec_up.simps [simp del] dec_down.simps [simp del]

definition decimal_exponent :: "real \<Rightarrow> int" where
  \<comment> \<open>for \<open>0 < v\<close>: the \<open>n\<close> with \<open>10^(n-1) \<le> v < 10^n\<close>\<close>
  "decimal_exponent v = (if 1 \<le> v then dec_up v else dec_down v)"

definition digit_candidate :: "number \<Rightarrow> int \<Rightarrow> nat \<Rightarrow> int option" where
  \<comment> \<open>a \<open>k\<close>-digit \<open>s\<close> such that \<open>s * 10^(n-k)\<close> rounds to \<open>v\<close>, the closest to \<open>v\<close> when
      there are two (the even one on a tie); only the two neighbours of \<open>v\<close> on that
      decimal grid can qualify\<close>
  "digit_candidate v n k =
     (let sc = 10 powi (n - int k);
          lo = \<lfloor>v / sc\<rfloor>;
          hi = lo + 1;
          oklo = (fl (of_int lo * sc) = v);
          okhi = (fl (of_int hi * sc) = v);
          dlo = v - of_int lo * sc;
          dhi = of_int hi * sc - v
      in if oklo \<and> okhi
         then Some (if dlo < dhi then lo else if dhi < dlo then hi else if even lo then lo else hi)
         else if oklo then Some lo else if okhi then Some hi else None)"

fun shortest_digits :: "number \<Rightarrow> int \<Rightarrow> nat \<Rightarrow> nat \<Rightarrow> nat \<times> int" where
  \<comment> \<open>least \<open>k\<close> from the given one with a candidate; 17 digits always identify a binary64
      value, so the search from 1 with 17 steps finds one\<close>
  "shortest_digits v n 0 k = (k, \<lfloor>v / 10 powi (n - int k)\<rfloor>)"
| "shortest_digits v n (Suc fuel) k =
     (case digit_candidate v n k of
        Some s \<Rightarrow> (k, s)
      | None \<Rightarrow> shortest_digits v n fuel (Suc k))"

function digits_of :: "int \<Rightarrow> string" where
  \<comment> \<open>the decimal digits of a non-negative integer\<close>
  "digits_of m = (if m < 10 then [''0123456789'' ! nat m]
                  else digits_of (m div 10) @ [''0123456789'' ! nat (m mod 10)])"
  by pat_completeness auto
termination
  by (relation "measure nat") auto

declare digits_of.simps [simp del]

definition positive_to_string :: "number \<Rightarrow> string" where
  \<comment> \<open>Number::toString in radix 10 for a finite \<open>0 < v\<close>\<close>
  "positive_to_string v =
     (let n0 = decimal_exponent v;
          (k, s0) = shortest_digits v n0 17 1;
          carry = (s0 = 10 ^ k);
          n = (if carry then n0 + 1 else n0);
          s = (if carry then 10 ^ (k - 1) else s0);
          ds = digits_of s
      in if - 5 \<le> n \<and> n \<le> 21
         then (if int k \<le> n then ds @ replicate (nat (n - int k)) CHR ''0''
               else if 0 < n then take (nat n) ds @ ''.'' @ drop (nat n) ds
               else ''0.'' @ replicate (nat (- n)) CHR ''0'' @ ds)
         else (let e = n - 1;
                   es = (if e < 0 then ''-'' else ''+'') @ digits_of \<bar>e\<bar>
               in if k = 1 then ds @ ''e'' @ es
                  else take 1 ds @ ''.'' @ drop 1 ds @ ''e'' @ es))"

definition number_to_string :: "number \<Rightarrow> string" where
  \<comment> \<open>what a template literal makes of a finite number\<close>
  "number_to_string v =
     (if v = 0 then ''0''
      else if v < 0 then ''-'' @ positive_to_string (- v)
      else positive_to_string v)"

section \<open>Elliptical arc to cubic B\'ezier segments\<close>

text \<open>
  The arc converter is modelled in exact real arithmetic: it goes through \<open>Math.sin\<close>,
  \<open>Math.cos\<close>, \<open>Math.tan\<close>, \<open>Math.atan2\<close> and \<open>Math.sqrt\<close>, whose binary64 results are
  approximations that the language leaves to the implementation. The model and the source
  agree up to rounding where the segment count \<open>\<lceil>\<bar>deltaAngle / maxSegmentAngle\<bar>\<rceil>\<close> is the
  same in both. Where the exact quotient is an integer, the rounded one of the source can
  lie just above it, and the source then returns one segment more than the model; where an
  intermediate result underflows to zero the source can return no segment. The statements
  below evaluate the converter at two arcs only: one with both radii zero, where the source
  and the model return no segment, and \<open>narrow_arc\<close>, where both return 12 segments.
\<close>

record Arc =
  arc_px :: real
  arc_py :: real
  arc_cx :: real
  arc_cy :: real
  arc_rx :: real
  arc_ry :: real
  arc_xAxisRotation :: real
  arc_largeArcFlag :: bool
  arc_sweepFlag :: bool

definition toRadians :: "real \<Rightarrow> real" where
  "toRadians deg = deg * pi / 180"

definition atan2 :: "real \<Rightarrow> real \<Rightarrow> real" where
  \<comment> \<open>\<open>Math.atan2(b, a)\<close>: the angle of the point \<open>(a, b)\<close>, in \<open>(-\<pi>, \<pi>]\<close>. With one
      zero: for \<open>a < 0\<close> the source gives \<open>\<pi>\<close> at \<open>b = +0\<close> and \<open>-\<pi>\<close> at \<open>b = -0\<close>, the
      model \<open>\<pi>\<close> at \<open>b = 0\<close>.\<close>
  "atan2 b a =
     (if 0 < a then arctan (b / a)
      else if a < 0 then (if 0 \<le> b then arctan (b / a) + pi else arctan (b / a) - pi)
      else if 0 < b then pi / 2 else if b < 0 then - (pi / 2) else 0)"

definition arc_piece ::
  "real \<Rightarrow> real \<Rightarrow> real \<Rightarrow> real \<Rightarrow> real \<Rightarrow> real \<Rightarrow> real \<Rightarrow> real \<Rightarrow> int \<Rightarrow> CubicSegment" where
  \<comment> \<open>the body of the segment loop of \<open>arcToCubicBeziers\<close> at counter \<open>i\<close>\<close>
  "arc_piece cxCenter cyCenter rx ry sinPhi cosPhi startAngle delta i =
     (let theta1 = startAngle + of_int i * delta;
          theta2 = theta1 + delta;
          t = (4 / 3) * tan ((theta2 - theta1) / 4);
          cosTheta1 = cos theta1;
          sinTheta1 = sin theta1;
          cosTheta2 = cos theta2;
          sinTheta2 = sin theta2;
          p0 = \<lparr>pt_x = cxCenter + rx * cosTheta1 * cosPhi - ry * sinTheta1 * sinPhi,
                pt_y = cyCenter + rx * cosTheta1 * sinPhi + ry * sinTheta1 * cosPhi\<rparr>;
          p3 = \<lparr>pt_x = cxCenter + rx * cosTheta2 * cosPhi - ry * sinTheta2 * sinPhi,
                pt_y = cyCenter + rx * cosTheta2 * sinPhi + ry * sinTheta2 * cosPhi\<rparr>;
          p1 = \<lparr>pt_x = pt_x p0 - t * (rx * sinTheta1 * cosPhi + ry * cosTheta1 * sinPhi),
                pt_y = pt_y p0 - t * (rx * sinTheta1 * sinPhi - ry * cosTheta1 * cosPhi)\<rparr>;
          p2 = \<lparr>pt_x = pt_x p3 + t * (rx * sinTheta2 * cosPhi + ry * cosTheta2 * sinPhi),
                pt_y = pt_y p3 + t * (rx * sinTheta2 * sinPhi - ry * cosTheta2 * cosPhi)\<rparr>
      in (p0, p1, p2, p3))"

function arc_loop ::
  "real \<Rightarrow> real \<Rightarrow> real \<Rightarrow> real \<Rightarrow> real \<Rightarrow> real \<Rightarrow> real \<Rightarrow> real \<Rightarrow> int \<Rightarrow> int \<Rightarrow>
   CubicSegment list \<Rightarrow> CubicSegment list" where
  "arc_loop cxCenter cyCenter rx ry sinPhi cosPhi startAngle delta segments i beziers =
     (if i < segments
      then arc_loop cxCenter cyCenter rx ry sinPhi cosPhi startAngle delta segments (i + 1)
             (beziers @ [arc_piece cxCenter cyCenter rx ry sinPhi cosPhi startAngle delta i])
      else beziers)"
  by pat_completeness auto
termination
  by (relation "measure (\<lambda>(cxCenter, cyCenter, rx, ry, sinPhi, cosPhi, startAngle, delta,
                             segments, i, beziers). nat (segments - i))") auto

declare arc_loop.simps [simp del]

definition arcToCubicBeziers :: "Arc \<Rightarrow> CubicSegment list" where
  "arcToCubicBeziers arc =
     (let px = arc_px arc; py = arc_py arc; cx = arc_cx arc; cy = arc_cy arc;
          rx = arc_rx arc; ry = arc_ry arc;
          sinPhi = sin (toRadians (arc_xAxisRotation arc));
          cosPhi = cos (toRadians (arc_xAxisRotation arc));
          dx = (px - cx) / 2;
          dy = (py - cy) / 2;
          x1p = cosPhi * dx + sinPhi * dy;
          y1p = - sinPhi * dx + cosPhi * dy;
          x1p2 = x1p * x1p;
          y1p2 = y1p * y1p;
          lambda = x1p2 / (rx * rx) + y1p2 / (ry * ry);
          factor = sqrt lambda;
          rx2 = (if 1 < lambda then (rx * factor) ^ 2 else rx * rx);
          ry2 = (if 1 < lambda then (ry * factor) ^ 2 else ry * ry);
          sign = (if arc_largeArcFlag arc \<noteq> arc_sweepFlag arc then 1 else - 1);
          coef = sign * sqrt (max 0 ((rx2 * ry2 - rx2 * y1p2 - ry2 * x1p2) / (rx2 * y1p2 + ry2 * x1p2)));
          cxp = (coef * (rx * y1p)) / ry;
          cyp = (coef * - (ry * x1p)) / rx;
          cxCenter = cosPhi * cxp - sinPhi * cyp + (px + cx) / 2;
          cyCenter = sinPhi * cxp + cosPhi * cyp + (py + cy) / 2;
          startAngle = atan2 ((y1p - cyp) / ry) ((x1p - cxp) / rx);
          deltaAngle0 = atan2 ((- y1p - cyp) / ry) ((- x1p - cxp) / rx) - startAngle;
          deltaAngle1 = (if \<not> arc_sweepFlag arc \<and> 0 < deltaAngle0 then deltaAngle0 - 2 * pi else deltaAngle0);
          deltaAngle = (if arc_sweepFlag arc \<and> deltaAngle1 < 0 then deltaAngle1 + 2 * pi else deltaAngle1);
          maxSegmentAngle = pi / 12;
          segments = \<lceil>\<bar>deltaAngle / maxSegmentAngle\<bar>\<rceil>;
          delta = deltaAngle / of_int segments
      in if rx = 0 \<or> ry = 0 \<or> (x1p = 0 \<and> y1p = 0)
         then []
           \<comment> \<open>Here a division by zero happens in the source: \<open>lambda\<close> or the quotient under the
               square root is infinite or NaN, a NaN reaches \<open>segments\<close>, and the loop
               condition \<open>i < segments\<close> is false at once.\<close>
         else arc_loop cxCenter cyCenter rx ry sinPhi cosPhi startAngle delta segments 0 [])"

section \<open>The path interpreter\<close>

text \<open>
  \<open>rebuiltPath\<close> is kept as the list of the pieces appended to it, in order: a command
  letter with the numbers printed after it, or the verbatim text of an unknown command.
  \<open>render\<close> gives the characters each piece stands for. \<open>Math.random()\<close> is a sequence
  \<open>random :: nat \<Rightarrow> number\<close> of which the state counts the values drawn so far.
\<close>

datatype piece = Cmd char "number list" | Raw string

definition render :: "piece \<Rightarrow> string" where
  "render p = (case p of
       Cmd c args \<Rightarrow> c # CHR '' '' # concat (map (\<lambda>v. number_to_string v @ '' '') args)
     | Raw s \<Rightarrow> s)"

record ParserState =
  currentPoint :: Point
  subpathStart :: Point
  rebuiltPath :: "piece list"
  randomCalls :: nat

definition distortCoord :: "(nat \<Rightarrow> number) \<Rightarrow> number \<Rightarrow> nat \<Rightarrow> number \<Rightarrow> number" where
  \<comment> \<open>\<open>val + (Math.random() - 0.5) * jitter * 2\<close>, with the \<open>k\<close>-th random value. With one
      zero: at \<open>jitter = 0\<close> and \<open>val = -0\<close> the source returns \<open>-0\<close> when the random value is
      below \<open>0.5\<close> and \<open>+0\<close> otherwise, the model \<open>0\<close>.\<close>
  "distortCoord random jitter k val =
     js_add val (js_mul (js_mul (js_sub (random k) (1 / 2)) jitter) 2)"

definition paramCounts :: "char \<Rightarrow> nat option" where
  "paramCounts upper =
     map_of [(CHR ''M'', 2), (CHR ''L'', 2), (CHR ''H'', 1), (CHR ''V'', 1), (CHR ''C'', 6),
             (CHR ''S'', 4), (CHR ''Q'', 4), (CHR ''T'', 2), (CHR ''A'', 7), (CHR ''Z'', 0)] upper"

function tokenize :: "string \<Rightarrow> (char \<times> string) list" where
  \<comment> \<open>the successive matches of \<open>/([a-zA-Z])([^a-zA-Z]*)/g\<close>\<close>
  "tokenize [] = []"
| "tokenize (c # cs) =
     (if is_letter c
      then (c, takeWhile (\<lambda>a. \<not> is_letter a) cs) # tokenize (dropWhile (\<lambda>a. \<not> is_letter a) cs)
      else tokenize cs)"
  by pat_completeness auto
termination
  by (relation "measure length") (auto simp: length_dropWhile_le less_Suc_eq_le)

declare tokenize.simps [simp del]

definition close_path :: "ParserState \<Rightarrow> ParserState" where
  "close_path st = st\<lparr>rebuiltPath := rebuiltPath st @ [Cmd CHR ''Z'' []],
                      currentPoint := subpathStart st\<rparr>"

definition arc_emit :: "(nat \<Rightarrow> number) \<Rightarrow> number \<Rightarrow> ParserState \<Rightarrow> CubicSegment \<Rightarrow> ParserState" where
  \<comment> \<open>the callback of \<open>beziers.forEach\<close>\<close>
  "arc_emit random jitter st bezier =
     (case bezier of (p0, p1, p2, p3) \<Rightarrow>
        let n = randomCalls st;
            c1x = distortCoord random jitter n (pt_x p1);
            c1y = distortCoord random jitter (n + 1) (pt_y p1);
            c2x = distortCoord random jitter (n + 2) (pt_x p2);
            c2y = distortCoord random jitter (n + 3) (pt_y p2);
            ex = distortCoord random jitter (n + 4) (pt_x p3);
            ey = distortCoord random jitter (n + 5) (pt_y p3)
        in st\<lparr>rebuiltPath := rebuiltPath st @ [Cmd CHR ''C'' [c1x, c1y, c2x, c2y, ex, ey]],
               currentPoint := \<lparr>pt_x = pt_x p3, pt_y = pt_y p3\<rparr>,
               randomCalls := n + 6\<rparr>)"

definition arc_command ::
  "(nat \<Rightarrow> number) \<Rightarrow> number \<Rightarrow> bool \<Rightarrow> number list \<Rightarrow> ParserState \<Rightarrow> ParserState" where
  "arc_command random jitter relative segmentParams st =
     (let rx = segmentParams ! 0; ry = segmentParams ! 1; xAxisRotation = segmentParams ! 2;
          largeArcFlag = segmentParams ! 3; sweepFlag = segmentParams ! 4;
          X = segmentParams ! 5; Y = segmentParams ! 6;
          x = (if relative then js_add X (pt_x (currentPoint st)) else X);
          y = (if relative then js_add Y (pt_y (currentPoint st)) else Y);
          beziers = arcToCubicBeziers
            \<lparr>arc_px = pt_x (currentPoint st), arc_py = pt_y (currentPoint st),
             arc_cx = x, arc_cy = y, arc_rx = rx, arc_ry = ry,
             arc_xAxisRotation = xAxisRotation,
             arc_largeArcFlag = (largeArcFlag \<noteq> 0), arc_sweepFlag = (sweepFlag \<noteq> 0)\<rparr>
      in foldl (arc_emit random jitter) st beziers)"

definition horizontal_command ::
  "(nat \<Rightarrow> number) \<Rightarrow> number \<Rightarrow> bool \<Rightarrow> number list \<Rightarrow> ParserState \<Rightarrow> ParserState" where
  "horizontal_command random jitter relative segmentParams st =
     (let n = randomCalls st;
          x0 = segmentParams ! 0;
          x = (if relative then js_add x0 (pt_x (currentPoint st)) else x0);
          dx = distortCoord random jitter n x;
          dy = distortCoord random jitter (n + 1) (pt_y (currentPoint st))
      in st\<lparr>rebuiltPath := rebuiltPath st @ [Cmd CHR ''L'' [dx, dy]],
             currentPoint := \<lparr>pt_x = x, pt_y = pt_y (currentPoint st)\<rparr>,
             randomCalls := n + 2\<rparr>)"

definition vertical_command ::
  "(nat \<Rightarrow> number) \<Rightarrow> number \<Rightarrow> bool \<Rightarrow> number list \<Rightarrow> ParserState \<Rightarrow> ParserState" where
  "vertical_command random jitter relative segmentParams st =
     (let n = randomCalls st;
          y0 = segmentParams ! 0;
          y = (if relative then js_add y0 (pt_y (currentPoint st)) else y0);
          dy = distortCoord random jitter n y;
          dx = distortCoord random jitter (n + 1) (pt_x (currentPoint st))
      in st\<lparr>rebuiltPath := rebuiltPath st @ [Cmd CHR ''L'' [dx, dy]],
             currentPoint := \<lparr>pt_x = pt_x (currentPoint st), pt_y = y\<rparr>,
             randomCalls := n + 2\<rparr>)"

definition line_command ::
  "(nat \<Rightarrow> number) \<Rightarrow> number \<Rightarrow> bool \<Rightarrow> number list \<Rightarrow> ParserState \<Rightarrow> ParserState" where
  "line_command random jitter relative segmentParams st =
     (let n = randomCalls st;
          x0 = segmentParams ! 0;
          y0 = segmentParams ! 1;
          x = (if relative then js_add x0 (pt_x (currentPoint st)) else x0);
          y = (if relative then js_add y0 (pt_y (currentPoint st)) else y0)
      in case lineToBezier (currentPoint st) \<lparr>pt_x = x, pt_y = y\<rparr> of (p0, cp1, cp2, p3) \<Rightarrow>
         let c1x = distortCoord random jitter n (pt_x cp1);
             c1y = distortCoord random jitter (n + 1) (pt_y cp1);
             c2x = distortCoord random jitter (n + 2) (pt_x cp2);
             c2y = distortCoord random jitter (n + 3) (pt_y cp2);
             ex = distortCoord random jitter (n + 4) (pt_x p3);
             ey = distortCoord random jitter (n + 5) (pt_y p3)
         in st\<lparr>rebuiltPath := rebuiltPath st @ [Cmd CHR ''C'' [c1x, c1y, c2x, c2y, ex, ey]],
                currentPoint := \<lparr>pt_x = x, pt_y = y\<rparr>,
                randomCalls := n + 6\<rparr>)"

fun distort_pairs ::
  "(nat \<Rightarrow> number) \<Rightarrow> number \<Rightarrow> bool \<Rightarrow> Point \<Rightarrow> nat \<Rightarrow> number list \<Rightarrow> number list" where
  \<comment> \<open>the loop that fills \<open>coords\<close>, two parameters at a time; \<open>n\<close> random values are
      drawn already\<close>
  "distort_pairs random jitter relative cur n (x0 # y0 # rest) =
     (let x = (if relative then js_add x0 (pt_x cur) else x0);
          y = (if relative then js_add y0 (pt_y cur) else y0);
          dx = distortCoord random jitter n x;
          dy = distortCoord random jitter (n + 1) y
      in dx # dy # distort_pairs random jitter relative cur (n + 2) rest)"
| "distort_pairs random jitter relative cur n [x0] = []"
    \<comment> \<open>not reached: the commands of this branch take 2, 4 or 6 parameters\<close>
| "distort_pairs random jitter relative cur n [] = []"

definition general_command ::
  "(nat \<Rightarrow> number) \<Rightarrow> number \<Rightarrow> char \<Rightarrow> bool \<Rightarrow> number list \<Rightarrow> ParserState \<Rightarrow> ParserState" where
  "general_command random jitter upper relative segmentParams st =
     (let coords = distort_pairs random jitter relative (currentPoint st) (randomCalls st) segmentParams;
          st1 = st\<lparr>rebuiltPath := rebuiltPath st @ [Cmd upper coords],
                   randomCalls := randomCalls st + length coords\<rparr>;
          last_pair = \<lparr>pt_x = coords ! (length coords - 2), pt_y = coords ! (length coords - 1)\<rparr>
      in if upper = CHR ''M'' then st1\<lparr>currentPoint := last_pair, subpathStart := last_pair\<rparr>
         else if upper \<in> set ''LTCSQ'' then st1\<lparr>currentPoint := last_pair\<rparr>
         else st1)"

definition dispatch ::
  "(nat \<Rightarrow> number) \<Rightarrow> number \<Rightarrow> char \<Rightarrow> bool \<Rightarrow> number list \<Rightarrow> ParserState \<Rightarrow> ParserState" where
  "dispatch random jitter upper relative segmentParams st =
     (if upper = CHR ''A'' then arc_command random jitter relative segmentParams st
      else if upper = CHR ''H'' then horizontal_command random jitter relative segmentParams st
      else if upper = CHR ''V'' then vertical_command random jitter relative segmentParams st
      else if upper = CHR ''L'' then line_command random jitter relative segmentParams st
      else general_command random jitter upper relative segmentParams st)"

function segments_loop ::
  "(nat \<Rightarrow> number) \<Rightarrow> number \<Rightarrow> char \<Rightarrow> bool \<Rightarrow> nat \<Rightarrow> number list \<Rightarrow> ParserState \<Rightarrow> ParserState" where
  \<comment> \<open>the inner \<open>while\<close> loop; \<open>params\<close> is what is left of the parameters from index \<open>i\<close> on\<close>
  "segments_loop random jitter upper relative paramCount params st =
     (if params \<noteq> [] \<or> paramCount = 0
      then if upper = CHR ''Z'' then close_path st
           else let segmentParams = take paramCount params
                in if length segmentParams < paramCount then st
                   else if paramCount = 0
                        then dispatch random jitter upper relative segmentParams st
                        else segments_loop random jitter upper relative paramCount
                               (drop paramCount params)
                               (dispatch random jitter upper relative segmentParams st)
      else st)"
  by pat_completeness auto
termination
  by (relation "measure (\<lambda>(random, jitter, upper, relative, paramCount, params, st). length params)")
     auto

declare segments_loop.simps [simp del]

definition process_command ::
  "(nat \<Rightarrow> number) \<Rightarrow> number \<Rightarrow> ParserState \<Rightarrow> char \<times> string \<Rightarrow> ParserState" where
  \<comment> \<open>the body of the outer \<open>while\<close> loop for one match\<close>
  "process_command random jitter st m =
     (case m of (command, paramsStr) \<Rightarrow>
        let upper = toUpperCase command;
            relative = (command \<noteq> upper);
            params = parseParams paramsStr
        in case paramCounts upper of
             None \<Rightarrow> st\<lparr>rebuiltPath := rebuiltPath st @ [Raw (command # paramsStr)]\<rparr>
           | Some paramCount \<Rightarrow> segments_loop random jitter upper relative paramCount params st)"

definition initial_state :: "nat \<Rightarrow> ParserState" where
  "initial_state n = \<lparr>currentPoint = \<lparr>pt_x = 0, pt_y = 0\<rparr>, subpathStart = \<lparr>pt_x = 0, pt_y = 0\<rparr>,
                      rebuiltPath = [], randomCalls = n\<rparr>"

definition run_path :: "(nat \<Rightarrow> number) \<Rightarrow> nat \<Rightarrow> string \<Rightarrow> number \<Rightarrow> ParserState" where
  \<comment> \<open>the state when \<open>distortPath\<close> leaves its loop, \<open>n\<close> random values having been drawn
      before the call\<close>
  "run_path random n d jitter = foldl (process_command random jitter) (initial_state n) (tokenize d)"

definition distortPath :: "(nat \<Rightarrow> number) \<Rightarrow> nat \<Rightarrow> string \<Rightarrow> number \<Rightarrow> string" where
  "distortPath random n d jitter =
     js_trim (concat (map render (rebuiltPath (run_path random n d jitter))))"

section \<open>The layered drawing\<close>

text \<open>
  Attribute objects live in a store, so that a write through one reference is seen through
  every other reference to the same object. \<open>outside\<close> is whatever the drawing collaborator
  acts on; the collaborator is given the attribute object of the pass by its contents.
\<close>

type_synonym attributes = "string \<rightharpoonup> string"

record 'w World =
  objects :: "nat \<rightharpoonup> attributes"
  nextRef :: nat
  randomUsed :: nat
  outside :: 'w

record Options =
  opt_jitter :: "number option"
  opt_repeats :: "int option"

definition new_object :: "attributes \<Rightarrow> 'w World \<Rightarrow> nat \<times> 'w World" where
  "new_object a w = (nextRef w, w\<lparr>objects := (objects w)(nextRef w \<mapsto> a), nextRef := nextRef w + 1\<rparr>)"

definition spread_copy :: "nat \<Rightarrow> 'w World \<Rightarrow> nat \<times> 'w World" where
  \<comment> \<open>\<open>{...attrs}\<close>: a new object with the own properties of the one referred to\<close>
  "spread_copy r w = new_object (case objects w r of Some a \<Rightarrow> a | None \<Rightarrow> Map.empty) w"

definition get_prop :: "nat \<Rightarrow> string \<Rightarrow> 'w World \<Rightarrow> string option" where
  "get_prop r k w = (case objects w r of Some a \<Rightarrow> a k | None \<Rightarrow> None)"

definition set_prop :: "nat \<Rightarrow> string \<Rightarrow> string \<Rightarrow> 'w World \<Rightarrow> 'w World" where
  "set_prop r k v w =
     w\<lparr>objects := (objects w)(r \<mapsto> (case objects w r of Some a \<Rightarrow> a(k \<mapsto> v) | None \<Rightarrow> [k \<mapsto> v]))\<rparr>"

definition drafty_pass ::
  "('svg \<Rightarrow> string \<Rightarrow> attributes \<Rightarrow> 'w \<Rightarrow> 'w) \<Rightarrow> (nat \<Rightarrow> number) \<Rightarrow> number \<Rightarrow>
   'svg \<Rightarrow> string \<Rightarrow> nat \<Rightarrow> int \<Rightarrow> 'w World \<Rightarrow> 'w World" where
  \<comment> \<open>the body of the loop of the returned function at counter \<open>i\<close>\<close>
  "drafty_pass drawPathFn random jitter svg d attrs i w =
     (let distortedD = distortPath random (randomUsed w) d jitter;
          w1 = w\<lparr>randomUsed := randomCalls (run_path random (randomUsed w) d jitter)\<rparr>;
          isFirst = (i = 0);
          (attrsCopy, w2) = spread_copy attrs w1;
          w3 = (if isFirst
                then set_prop attrsCopy ''stroke'' ''none''
                       (if get_prop attrsCopy ''fill'' w2 = None
                        then set_prop attrsCopy ''fill'' ''black'' w2 else w2)
                else (let w2a = set_prop attrsCopy ''fill'' ''none'' w2
                      in if get_prop attrsCopy ''stroke'' w2a = None
                         then set_prop attrsCopy ''stroke'' ''black'' w2a else w2a))
      in w3\<lparr>outside := drawPathFn svg distortedD (the (objects w3 attrsCopy)) (outside w3)\<rparr>)"

function drafty_loop ::
  "('svg \<Rightarrow> string \<Rightarrow> attributes \<Rightarrow> 'w \<Rightarrow> 'w) \<Rightarrow> (nat \<Rightarrow> number) \<Rightarrow> number \<Rightarrow> int \<Rightarrow>
   'svg \<Rightarrow> string \<Rightarrow> nat \<Rightarrow> int \<Rightarrow> 'w World \<Rightarrow> 'w World" where
  "drafty_loop drawPathFn random jitter repeats svg d attrs i w =
     (if i < repeats + 1
      then drafty_loop drawPathFn random jitter repeats svg d attrs (i + 1)
             (drafty_pass drawPathFn random jitter svg d attrs i w)
      else w)"
  by pat_completeness auto
termination
  by (relation "measure (\<lambda>(drawPathFn, random, jitter, repeats, svg, d, attrs, i, w).
                   nat (repeats + 1 - i))") auto

declare drafty_loop.simps [simp del]

definition makeDraftyPath ::
  "(nat \<Rightarrow> number) \<Rightarrow> ('svg \<Rightarrow> string \<Rightarrow> attributes \<Rightarrow> 'w \<Rightarrow> 'w) \<Rightarrow> Options \<Rightarrow>
   'svg \<Rightarrow> string \<Rightarrow> nat option \<Rightarrow> 'w World \<Rightarrow> 'w World" where
  \<comment> \<open>\<open>makeDraftyPath(drawPathFn, options)(svg, d, attrs)\<close>; an omitted \<open>attrs\<close> is \<open>None\<close>
      and defaults to a new empty object\<close>
  "makeDraftyPath random drawPathFn options =
     (let jitter = (case opt_jitter options of Some j \<Rightarrow> j | None \<Rightarrow> fl (12 / 10));
          repeats = (case opt_repeats options of Some r \<Rightarrow> r | None \<Rightarrow> 3)
      in (\<lambda>svg d attrsArg w.
            let (attrs, w0) = (case attrsArg of Some r \<Rightarrow> (r, w) | None \<Rightarrow> new_object Map.empty w)
            in drafty_loop drawPathFn random jitter repeats svg d attrs 0 w0))"

definition recorder :: "'svg \<Rightarrow> string \<Rightarrow> attributes \<Rightarrow> ('svg \<times> string \<times> attributes) list \<Rightarrow>
   ('svg \<times> string \<times> attributes) list" where
  \<comment> \<open>a drawing collaborator that only keeps the calls made to it, in order\<close>
  "recorder svg d a calls = calls @ [(svg, d, a)]"

section \<open>Notions used in the statements\<close>

definition constant_random :: "number \<Rightarrow> nat \<Rightarrow> number" where
  \<comment> \<open>a random source that returns the same value at every call\<close>
  "constant_random r k = r"

fun piece_letter :: "piece \<Rightarrow> char option" where
  "piece_letter (Cmd c args) = Some c"
| "piece_letter (Raw s) = None"

definition narrow_arc :: Arc where
  \<comment> \<open>the arc of the path \<open>M0,0 A1,1 0 0 1 10,0\<close>\<close>
  "narrow_arc = \<lparr>arc_px = 0, arc_py = 0, arc_cx = 10, arc_cy = 0, arc_rx = 1, arc_ry = 1,
                  arc_xAxisRotation = 0, arc_largeArcFlag = False, arc_sweepFlag = True\<rparr>"

definition letters_of :: "string \<Rightarrow> char set" where
  \<comment> \<open>the command letters of a path, in upper case\<close>
  "letters_of d = (\<lambda>m. toUpperCase (fst m)) ` set (tokenize d)"

definition allowed_piece :: "string \<Rightarrow> piece \<Rightarrow> bool" where
  \<comment> \<open>what a piece of the output of the path \<open>d\<close> may be: a Move, Cubic or Close command;
      an S, Q or T command when \<open>d\<close> holds that command; an L command when \<open>d\<close> holds an
      H or a V; the text of a command of \<open>d\<close> whose letter is not a path command\<close>
  "allowed_piece d p =
     (case p of
        Cmd c args \<Rightarrow>
          c \<in> set ''MCZ'' \<or> (c \<in> set ''SQT'' \<and> c \<in> letters_of d) \<or>
          (c = CHR ''L'' \<and> (CHR ''H'' \<in> letters_of d \<or> CHR ''V'' \<in> letters_of d))
      | Raw s \<Rightarrow>
          list_ex (\<lambda>m. paramCounts (toUpperCase (fst m)) = None \<and> s = fst m # snd m) (tokenize d))"

definition jittered_cubic :: "(nat \<Rightarrow> number) \<Rightarrow> number \<Rightarrow> nat \<Rightarrow> CubicSegment \<Rightarrow> piece" where
  \<comment> \<open>the Cubic command of a segment: its two control points and its end point, each
      coordinate jittered, with the random values from the \<open>k\<close>-th on\<close>
  "jittered_cubic random jitter k b =
     (case b of (p0, p1, p2, p3) \<Rightarrow>
        Cmd CHR ''C'' [distortCoord random jitter k (pt_x p1),
                      distortCoord random jitter (k + 1) (pt_y p1),
                      distortCoord random jitter (k + 2) (pt_x p2),
                      distortCoord random jitter (k + 3) (pt_y p2),
                      distortCoord random jitter (k + 4) (pt_x p3),
                      distortCoord random jitter (k + 5) (pt_y p3)])"

function whole_groups :: "nat \<Rightarrow> 'a list \<Rightarrow> 'a list list" where
  \<comment> \<open>the successive groups of \<open>k\<close> parameters, without the shorter rest\<close>
  "whole_groups k xs =
     (if k = 0 \<or> length xs < k then [] else take k xs # whole_groups k (drop k xs))"
  by pat_completeness auto
termination
  by (relation "measure (\<lambda>(k, xs). length xs)") auto

declare whole_groups.simps [simp del]

definition resolve :: "bool \<Rightarrow> number \<Rightarrow> number \<Rightarrow> number" where
  \<comment> \<open>the absolute coordinate of a parameter: \<open>if (relative) x += currentPoint.x\<close>\<close>
  "resolve relative v base = (if relative then js_add v base else v)"

definition layer_attributes :: "bool \<Rightarrow> attributes \<Rightarrow> attributes" where
  \<comment> \<open>the attributes of one pass, from those of the caller: fill only on the first pass,
      stroke only on the others\<close>
  "layer_attributes isFirst a =
     (if isFirst
      then (if a ''fill'' = None then a(''fill'' \<mapsto> ''black'') else a)(''stroke'' \<mapsto> ''none'')
      else (if (a(''fill'' \<mapsto> ''none'')) ''stroke'' = None
            then a(''fill'' \<mapsto> ''none'', ''stroke'' \<mapsto> ''black'')
            else a(''fill'' \<mapsto> ''none'')))"

definition object_at :: "'w World \<Rightarrow> nat \<Rightarrow> attributes" where
  \<comment> \<open>the properties a spread reads from a reference\<close>
  "object_at w r = (case objects w r of Some a \<Rightarrow> a | None \<Rightarrow> Map.empty)"

definition layer_ok :: "int \<Rightarrow> attributes \<Rightarrow> bool" where
  \<comment> \<open>what the layer count law asks of the attributes of draw call \<open>k\<close>\<close>
  "layer_ok k a = (if k = 0 then a ''stroke'' = Some ''none'' else a ''fill'' = Some ''none'')"

definition sample_world :: "(unit \<times> string \<times> attributes) list World" where
  \<comment> \<open>a store with one attribute object, at reference 0, and no draw call made yet\<close>
  "sample_world = \<lparr>objects = [0 \<mapsto> [''id'' \<mapsto> ''p'', ''fill'' \<mapsto> ''red'']], nextRef = 1, randomUsed = 0, outside = []\<rparr>"

definition mix :: "real \<Rightarrow> real \<Rightarrow> real \<Rightarrow> real" where
  \<comment> \<open>linear interpolation in exact arithmetic\<close>
  "mix a b t = a + (b - a) * t"

definition casteljau :: "real \<Rightarrow> real \<Rightarrow> real \<Rightarrow> real \<Rightarrow> real \<Rightarrow> real" where
  \<comment> \<open>one coordinate of \<open>cubicBezierPoint\<close>\<close>
  "casteljau a b c d t =
     lerp (lerp (lerp a b t) (lerp b c t) t) (lerp (lerp b c t) (lerp c d t) t) t"

definition bezier_coord :: "real \<Rightarrow> real \<Rightarrow> real \<Rightarrow> real \<Rightarrow> real \<Rightarrow> real" where
  \<comment> \<open>Modelled from the spec: one coordinate of the cubic B\'ezier curve with anchors \<open>a\<close>,
      \<open>d\<close> and control values \<open>b\<close>, \<open>c\<close> at parameter \<open>t\<close>, in exact arithmetic\<close>
  "bezier_coord a b c d t =
     (1 - t) ^ 3 * a + 3 * (1 - t) ^ 2 * t * b + 3 * (1 - t) * t ^ 2 * c + t ^ 3 * d"

definition bezier_curve :: "Point \<Rightarrow> Point \<Rightarrow> Point \<Rightarrow> Point \<Rightarrow> real \<Rightarrow> Point" where
  \<comment> \<open>Modelled from the spec: the original curve evaluated at \<open>t\<close>\<close>
  "bezier_curve p0 p1 p2 p3 t =
     \<lparr>pt_x = bezier_coord (pt_x p0) (pt_x p1) (pt_x p2) (pt_x p3) t,
      pt_y = bezier_coord (pt_y p0) (pt_y p1) (pt_y p2) (pt_y p3) t\<rparr>"

definition near :: "Point \<Rightarrow> Point \<Rightarrow> bool" where
  \<comment> \<open>equal within \<open>1e-6\<close> in each coordinate\<close>
  "near p q = (\<bar>pt_x p - pt_x q\<bar> \<le> 1 / 10 ^ 6 \<and> \<bar>pt_y p - pt_y q\<bar> \<le> 1 / 10 ^ 6)"

definition moderate :: "Point \<Rightarrow> bool" where
  \<comment> \<open>both coordinates at most \<open>10^6\<close> in magnitude\<close>
  "moderate p = (\<bar>pt_x p\<bar> \<le> 10 ^ 6 \<and> \<bar>pt_y p\<bar> \<le> 10 ^ 6)"

section \<open>Basic facts\<close>

lemma fl_0 [simp]: "fl 0 = 0"
  by (simp add: fl_def)

lemma distortCoord_zero: "distortCoord random 0 k v = fl v"
  by (simp add: distortCoord_def js_add_def js_mul_def)

lemma paramCounts_zero_iff:
  "paramCounts upper = Some paramCount \<Longrightarrow> paramCount = 0 \<longleftrightarrow> upper = CHR ''Z''"
  by (auto simp: paramCounts_def split: if_splits)

lemma segments_loop_nil:
  "0 < paramCount \<Longrightarrow> segments_loop random jitter upper relative paramCount [] st = st"
  by (subst segments_loop.simps) simp

lemma segments_loop_short:
  "upper \<noteq> CHR ''Z'' \<Longrightarrow> length params < paramCount \<Longrightarrow>
   segments_loop random jitter upper relative paramCount params st = st"
  by (subst segments_loop.simps) (simp add: Let_def)

lemma toUpperCase_upper:
  "toUpperCase CHR ''M'' = CHR ''M''" "toUpperCase CHR ''L'' = CHR ''L''"
  "toUpperCase CHR ''Z'' = CHR ''Z''" "toUpperCase CHR ''A'' = CHR ''A''"
  "toUpperCase CHR ''H'' = CHR ''H''" "toUpperCase CHR ''Q'' = CHR ''Q''"
  by (simp_all add: toUpperCase_def)

lemma parseParams_empty: "parseParams [] = []"
  by code_simp

section \<open>The error of one rounding\<close>

lemma exp_up_lower: "1 \<le> v \<Longrightarrow> 2 powi (exp_up v) \<le> v"
proof (induction v rule: exp_up.induct)
  case (1 v)
  show ?case
  proof (cases "v < 2")
    case True
    with 1(2) show ?thesis by (subst exp_up.simps) simp
  next
    case False
    then have h: "1 \<le> v / 2" by simp
    have "(2::real) powi (1 + exp_up (v / 2)) = 2 * 2 powi (exp_up (v / 2))"
      by (simp add: power_int_add)
    also have "\<dots> \<le> 2 * (v / 2)"
      using "1.IH" [OF False h] by simp
    finally show ?thesis
      using False by (subst exp_up.simps) simp
  qed
qed

lemma exp_down_lower: "0 < v \<Longrightarrow> v < 1 \<Longrightarrow> 2 powi (exp_down v) \<le> v"
proof (induction v rule: exp_down.induct)
  case (1 v)
  have nb: "\<not> (v \<le> 0 \<or> 1 \<le> v)" using 1(2,3) by simp
  have e: "exp_down v = exp_down (2 * v) - 1"
    using nb by (subst exp_down.simps) simp
  show ?case
  proof (cases "2 * v < 1")
    case True
    have "2 powi (exp_down (2 * v)) \<le> 2 * v"
      using "1.IH" [OF nb] 1(2) True by simp
    moreover have "2 powi (exp_down (2 * v) - 1) = 2 powi (exp_down (2 * v)) / (2::real)"
      by (simp add: power_int_diff)
    ultimately show ?thesis
      unfolding e by simp
  next
    case False
    then have "exp_down (2 * v) = 0" by (subst exp_down.simps) simp
    with False show ?thesis unfolding e by simp
  qed
qed

lemma binary_exponent_lower: "0 < v \<Longrightarrow> 2 powi (binary_exponent v) \<le> v"
  by (simp add: binary_exponent_def exp_up_lower exp_down_lower)

lemma round_half_even_error: "\<bar>of_int (round_half_even v) - v\<bar> \<le> 1 / 2"
  unfolding round_half_even_def Let_def by (auto; linarith)

lemma ulp_of_pos: "0 < ulp_of v"
  by (simp add: ulp_of_def)

lemma ulp_of_bound: "0 < v \<Longrightarrow> ulp_of v \<le> v / 2 ^ 52 + 1 / 2 ^ 1074"
proof -
  assume v: "0 < v"
  show ?thesis
  proof (cases "- 1022 \<le> binary_exponent v")
    case True
    then have "ulp_of v = 2 powi (binary_exponent v - 52)"
      by (simp add: ulp_of_def max_def)
    also have "\<dots> = 2 powi (binary_exponent v) / 2 ^ 52"
      by (simp add: power_int_diff)
    also have "\<dots> \<le> v / 2 ^ 52"
      using binary_exponent_lower [OF v] by (simp add: divide_right_mono)
    finally show ?thesis by (simp add: add_increasing2)
  next
    case False
    then have "ulp_of v = 2 powi (- 1074)"
      by (simp add: ulp_of_def max_def)
    also have "\<dots> = 1 / 2 ^ 1074"
      by (simp add: power_int_minus field_simps)
    finally show ?thesis using v by simp
  qed
qed

lemma fl_error: "\<bar>fl v - v\<bar> \<le> \<bar>v\<bar> / 2 ^ 53 + 1 / 2 ^ 1075"
proof (cases "v = 0")
  case True
  then show ?thesis by (simp add: fl_def)
next
  case False
  define a where "a = \<bar>v\<bar>"
  define u where "u = ulp_of a"
  define k where "k = round_half_even (a / u)"
  have a: "0 < a" using False by (simp add: a_def)
  have u: "0 < u" by (simp add: u_def ulp_of_pos)
  have "fl v - v = sgn v * (of_int k * u - a)"
    using False by (simp add: fl_def a_def u_def k_def algebra_simps sgn_if)
  then have "\<bar>fl v - v\<bar> = \<bar>of_int k * u - a\<bar>"
    using False by (simp add: abs_mult sgn_if)
  also have "of_int k * u - a = (of_int k - a / u) * u"
    using u by (simp add: field_simps)
  also have "\<bar>\<dots>\<bar> = \<bar>of_int k - a / u\<bar> * u"
    using u by (simp add: abs_mult)
  also have "\<dots> \<le> (1 / 2) * u"
    using round_half_even_error [of "a / u"] u unfolding k_def by (intro mult_right_mono) simp_all
  also have "\<dots> \<le> (1 / 2) * (a / 2 ^ 52 + 1 / 2 ^ 1074)"
    using ulp_of_bound [OF a] unfolding u_def by simp
  also have "\<dots> = a / 2 ^ 53 + 1 / 2 ^ 1075"
    by simp
  finally show ?thesis by (simp add: a_def)
qed

lemma fl_near_moderate: "\<bar>v\<bar> \<le> 5000000 \<Longrightarrow> \<bar>fl v - v\<bar> \<le> 1 / 10 ^ 9"
proof -
  assume b: "\<bar>v\<bar> \<le> 5000000"
  have "\<bar>fl v - v\<bar> \<le> \<bar>v\<bar> / 2 ^ 53 + 1 / 2 ^ 1075" by (rule fl_error)
  also have "\<dots> \<le> 5000000 / 2 ^ 53 + 1 / 2 ^ 53"
  proof (intro add_mono)
    show "\<bar>v\<bar> / 2 ^ 53 \<le> 5000000 / 2 ^ 53" using b by (simp add: divide_right_mono)
    have "(2::real) ^ 53 \<le> 2 ^ 1075" by (rule power_increasing) simp_all
    then show "1 / (2::real) ^ 1075 \<le> 1 / 2 ^ 53" by (simp add: frac_le)
  qed
  also have "\<dots> \<le> 1 / 10 ^ 9" by simp
  finally show ?thesis .
qed

lemma fl_near_unit: "\<bar>v\<bar> \<le> 4 \<Longrightarrow> \<bar>fl v - v\<bar> \<le> 1 / 10 ^ 15"
proof -
  assume b: "\<bar>v\<bar> \<le> 4"
  have "\<bar>fl v - v\<bar> \<le> \<bar>v\<bar> / 2 ^ 53 + 1 / 2 ^ 1075" by (rule fl_error)
  also have "\<dots> \<le> 4 / 2 ^ 53 + 1 / 2 ^ 53"
  proof (intro add_mono)
    show "\<bar>v\<bar> / 2 ^ 53 \<le> 4 / 2 ^ 53" using b by (simp add: divide_right_mono)
    have "(2::real) ^ 53 \<le> 2 ^ 1075" by (rule power_increasing) simp_all
    then show "1 / (2::real) ^ 1075 \<le> 1 / 2 ^ 53" by (simp add: frac_le)
  qed
  also have "\<dots> \<le> 1 / 10 ^ 15" by simp
  finally show ?thesis .
qed

section \<open>The error of the curve evaluation\<close>

lemma convex_bound:
  assumes "\<bar>a\<bar> \<le> M" and "\<bar>b\<bar> \<le> M" and "0 \<le> t" and "t \<le> 1"
  shows "\<bar>mix a b t\<bar> \<le> (M::real)"
proof -
  have e: "mix a b t = (1 - t) * a + t * b" by (simp add: mix_def algebra_simps)
  have "\<bar>(1 - t) * a\<bar> \<le> (1 - t) * M"
    using assms(1,4) by (simp add: abs_mult mult_left_mono)
  moreover have "\<bar>t * b\<bar> \<le> t * M"
    using assms(2,3) by (simp add: abs_mult mult_left_mono)
  moreover have "(1 - t) * M + t * M = M" by (simp add: algebra_simps)
  ultimately show ?thesis unfolding e by linarith
qed

lemma lerp_near:
  assumes a: "\<bar>a\<bar> \<le> 1000000" and b: "\<bar>b\<bar> \<le> 1000000"
    and da: "\<bar>a' - a\<bar> \<le> \<delta>" and db: "\<bar>b' - b\<bar> \<le> \<delta>" and d: "\<delta> \<le> 1"
    and t: "0 \<le> t" "t \<le> 1" and tt: "\<bar>t' - t\<bar> \<le> 1 / 10 ^ 14"
  shows "\<bar>lerp a' b' t' - mix a b t\<bar> \<le> \<delta> + 3 / 10 ^ 8"
proof -
  define d1 where "d1 = fl (b' - a')"
  define d2 where "d2 = fl (d1 * t')"
  define r where "r = fl (a' + d2)"
  define c9 :: real where "c9 = 1 / 10 ^ 9"
  define c14 :: real where "c14 = 1 / 10 ^ 14"
  have c9: "c9 = 1 / 1000000000" and c14: "c14 = 1 / 100000000000000"
    by (simp_all add: c9_def c14_def)
  have tt': "\<bar>t' - t\<bar> \<le> c14" using tt by (simp add: c14_def)
  have r: "lerp a' b' t' = r"
    by (simp add: lerp_def js_add_def js_sub_def js_mul_def r_def d2_def d1_def)
  have d0: "0 \<le> \<delta>" using da by linarith
  have tb: "\<bar>t'\<bar> \<le> t + c14" "\<bar>1 - t'\<bar> \<le> 1 - t + c14"
    using t tt' by linarith+
  have tb1: "\<bar>t'\<bar> \<le> 1000001 / 1000000" using tb(1) t c14 by linarith
  have h1: "\<bar>b' - a'\<bar> \<le> 5000000" using a b da db d by linarith
  have e1: "\<bar>d1 - (b' - a')\<bar> \<le> c9"
    unfolding d1_def c9_def by (rule fl_near_moderate [OF h1])
  have h2: "\<bar>d1\<bar> \<le> 2000003" using a b da db d e1 c9 by linarith
  have "\<bar>d1\<bar> * \<bar>t'\<bar> \<le> 2000003 * (1000001 / 1000000)"
    using h2 tb1 by (intro mult_mono) simp_all
  then have h2': "\<bar>d1 * t'\<bar> \<le> 2000006" by (simp add: abs_mult)
  then have h2'': "\<bar>d1 * t'\<bar> \<le> 5000000" by linarith
  have e2: "\<bar>d2 - d1 * t'\<bar> \<le> c9"
    unfolding d2_def c9_def by (rule fl_near_moderate [OF h2''])
  have h3: "\<bar>a' + d2\<bar> \<le> 5000000" using a da d h2' e2 c9 by linarith
  have e3: "\<bar>r - (a' + d2)\<bar> \<le> c9"
    unfolding r_def c9_def by (rule fl_near_moderate [OF h3])
  have split: "r - mix a b t =
      (r - (a' + d2)) + (d2 - d1 * t') + (d1 - (b' - a')) * t' +
      ((a' - a) * (1 - t') + (b' - b) * t') + (b - a) * (t' - t)"
    by (simp add: mix_def algebra_simps)
  have "\<bar>d1 - (b' - a')\<bar> * \<bar>t'\<bar> \<le> c9 * (1000001 / 1000000)"
    using e1 tb1 by (intro mult_mono) (simp_all add: c9)
  then have p1: "\<bar>(d1 - (b' - a')) * t'\<bar> \<le> 2 * c9" by (simp add: abs_mult c9)
  have "\<bar>a' - a\<bar> * \<bar>1 - t'\<bar> \<le> \<delta> * (1 - t + c14)"
    using da tb(2) d0 by (intro mult_mono) simp_all
  then have p2: "\<bar>(a' - a) * (1 - t')\<bar> \<le> \<delta> * (1 - t + c14)" by (simp add: abs_mult)
  have "\<bar>b' - b\<bar> * \<bar>t'\<bar> \<le> \<delta> * (t + c14)"
    using db tb(1) d0 by (intro mult_mono) simp_all
  then have p3: "\<bar>(b' - b) * t'\<bar> \<le> \<delta> * (t + c14)" by (simp add: abs_mult)
  have p23: "\<delta> * (1 - t + c14) + \<delta> * (t + c14) = \<delta> + 2 * (\<delta> * c14)"
    by (simp add: algebra_simps)
  have "\<delta> * c14 \<le> 1 * c14"
    using d by (intro mult_right_mono) (simp_all add: c14)
  then have p23': "\<delta> * c14 \<le> c14" by simp
  have ba: "\<bar>b - a\<bar> \<le> 2000000" using a b by linarith
  have "\<bar>b - a\<bar> * \<bar>t' - t\<bar> \<le> 2000000 * c14"
    using ba tt' by (intro mult_mono) simp_all
  then have p4: "\<bar>(b - a) * (t' - t)\<bar> \<le> 2000000 * c14" by (simp add: abs_mult)
  define T1 where "T1 = r - (a' + d2)"
  define T2 where "T2 = d2 - d1 * t'"
  define T3 where "T3 = (d1 - (b' - a')) * t'"
  define T4 where "T4 = (a' - a) * (1 - t')"
  define T5 where "T5 = (b' - b) * t'"
  define T6 where "T6 = (b - a) * (t' - t)"
  define X where "X = \<delta> * (1 - t + c14)"
  define Y where "Y = \<delta> * (t + c14)"
  define Z where "Z = \<delta> * c14"
  have f: "\<bar>T1\<bar> \<le> c9" "\<bar>T2\<bar> \<le> c9" "\<bar>T3\<bar> \<le> 2 * c9" "\<bar>T4\<bar> \<le> X" "\<bar>T5\<bar> \<le> Y"
    "X + Y = \<delta> + 2 * Z" "Z \<le> c14" "\<bar>T6\<bar> \<le> 2000000 * c14"
    using e3 e2 p1 p2 p3 p23 p23' p4
    by (simp_all add: T1_def T2_def T3_def T4_def T5_def T6_def X_def Y_def Z_def)
  have "\<bar>T1 + T2 + T3 + (T4 + T5) + T6\<bar> \<le> \<delta> + 3 / 100000000"
    using f c9 c14 by linarith
  then have "\<bar>r - mix a b t\<bar> \<le> \<delta> + 3 / 10 ^ 8"
    unfolding split T1_def T2_def T3_def T4_def T5_def T6_def by simp
  then show ?thesis by (simp add: r)
qed

lemma cubicBezierPoint_coords:
  "pt_x (cubicBezierPoint p0 p1 p2 p3 t) = casteljau (pt_x p0) (pt_x p1) (pt_x p2) (pt_x p3) t"
  "pt_y (cubicBezierPoint p0 p1 p2 p3 t) = casteljau (pt_y p0) (pt_y p1) (pt_y p2) (pt_y p3) t"
  by (simp_all add: cubicBezierPoint_def casteljau_def Let_def)

lemma mix_bezier:
  "mix (mix (mix a b t) (mix b c t) t) (mix (mix b c t) (mix c d t) t) t = bezier_coord a b c d t"
  by (simp add: mix_def bezier_coord_def algebra_simps power2_eq_square power3_eq_cube)

lemma casteljau_near:
  assumes a: "\<bar>a\<bar> \<le> 1000000" and b: "\<bar>b\<bar> \<le> 1000000" and c: "\<bar>c\<bar> \<le> 1000000"
    and d: "\<bar>d\<bar> \<le> 1000000"
    and t: "0 \<le> t" "t \<le> 1" and tt: "\<bar>t' - t\<bar> \<le> 1 / 10 ^ 14"
  shows "\<bar>casteljau a b c d t' - bezier_coord a b c d t\<bar> \<le> 1 / 10 ^ 6"
proof -
  have z: "\<bar>x - x\<bar> \<le> (0::real)" for x by simp
  have o: "(0::real) \<le> 1" by simp
  have ab: "\<bar>lerp a b t' - mix a b t\<bar> \<le> 0 + 3 / 10 ^ 8"
    by (rule lerp_near [OF a b z z o t tt])
  have bc: "\<bar>lerp b c t' - mix b c t\<bar> \<le> 0 + 3 / 10 ^ 8"
    by (rule lerp_near [OF b c z z o t tt])
  have cd: "\<bar>lerp c d t' - mix c d t\<bar> \<le> 0 + 3 / 10 ^ 8"
    by (rule lerp_near [OF c d z z o t tt])
  have bab: "\<bar>mix a b t\<bar> \<le> 1000000" by (rule convex_bound [OF a b t])
  have bbc: "\<bar>mix b c t\<bar> \<le> 1000000" by (rule convex_bound [OF b c t])
  have bcd: "\<bar>mix c d t\<bar> \<le> 1000000" by (rule convex_bound [OF c d t])
  have s1: "(0::real) + 3 / 10 ^ 8 \<le> 1" by simp
  have abc: "\<bar>lerp (lerp a b t') (lerp b c t') t' - mix (mix a b t) (mix b c t) t\<bar>
               \<le> (0 + 3 / 10 ^ 8) + 3 / 10 ^ 8"
    by (rule lerp_near [OF bab bbc ab bc s1 t tt])
  have bcd2: "\<bar>lerp (lerp b c t') (lerp c d t') t' - mix (mix b c t) (mix c d t) t\<bar>
               \<le> (0 + 3 / 10 ^ 8) + 3 / 10 ^ 8"
    by (rule lerp_near [OF bbc bcd bc cd s1 t tt])
  have babc: "\<bar>mix (mix a b t) (mix b c t) t\<bar> \<le> 1000000" by (rule convex_bound [OF bab bbc t])
  have bbcd: "\<bar>mix (mix b c t) (mix c d t) t\<bar> \<le> 1000000" by (rule convex_bound [OF bbc bcd t])
  have s2: "((0::real) + 3 / 10 ^ 8) + 3 / 10 ^ 8 \<le> 1" by simp
  have top: "\<bar>casteljau a b c d t' -
               mix (mix (mix a b t) (mix b c t) t) (mix (mix b c t) (mix c d t) t) t\<bar>
             \<le> ((0 + 3 / 10 ^ 8) + 3 / 10 ^ 8) + 3 / 10 ^ 8"
    unfolding casteljau_def by (rule lerp_near [OF babc bbcd abc bcd2 s2 t tt])
  have "((0::real) + 3 / 10 ^ 8) + 3 / 10 ^ 8 + 3 / 10 ^ 8 \<le> 1 / 10 ^ 6" by simp
  with top show ?thesis unfolding mix_bezier by linarith
qed

lemma cubicBezierPoint_near:
  assumes "moderate p0" "moderate p1" "moderate p2" "moderate p3"
    and t: "0 \<le> t" "t \<le> 1" and tt: "\<bar>t' - t\<bar> \<le> 1 / 10 ^ 14"
  shows "near (cubicBezierPoint p0 p1 p2 p3 t') (bezier_curve p0 p1 p2 p3 t)"
proof -
  have x: "\<bar>pt_x p0\<bar> \<le> 1000000" "\<bar>pt_x p1\<bar> \<le> 1000000" "\<bar>pt_x p2\<bar> \<le> 1000000" "\<bar>pt_x p3\<bar> \<le> 1000000"
    and y: "\<bar>pt_y p0\<bar> \<le> 1000000" "\<bar>pt_y p1\<bar> \<le> 1000000" "\<bar>pt_y p2\<bar> \<le> 1000000" "\<bar>pt_y p3\<bar> \<le> 1000000"
    using assms(1-4) by (simp_all add: moderate_def)
  show ?thesis
    unfolding near_def cubicBezierPoint_coords bezier_curve_def
    using casteljau_near [OF x t tt] casteljau_near [OF y t tt] by simp
qed

section \<open>Subdividing a cubic\<close>

lemma split_loop_eq:
  "split_loop p0 p1 p2 p3 segments i result =
     result @ map (split_piece p0 p1 p2 p3 segments) [i..segments]"
proof (induction p0 p1 p2 p3 segments i result rule: split_loop.induct)
  case (1 p0 p1 p2 p3 segments i result)
  show ?case
  proof (cases "i \<le> segments")
    case True
    then have "[i..segments] = i # [i + 1..segments]" by (simp add: upto_rec1)
    with True 1 show ?thesis by (subst split_loop.simps) simp
  next
    case False
    then show ?thesis by (subst split_loop.simps) simp
  qed
qed

lemma split_parameters:
  assumes N: "1 \<le> N" and i: "i < nat N"
  shows "0 \<le> real i / real_of_int N \<and> (real i + 1) / real_of_int N \<le> 1 \<and>
    \<bar>js_div (of_nat i) (of_int N) - real i / real_of_int N\<bar> \<le> 1 / 10 ^ 14 \<and>
    \<bar>js_div (of_nat (i + 1)) (of_int N) - (real i + 1) / real_of_int N\<bar> \<le> 1 / 10 ^ 14 \<and>
    \<bar>js_add (js_div (of_nat i) (of_int N))
        (js_div (js_sub (js_div (of_nat (i + 1)) (of_int N)) (js_div (of_nat i) (of_int N))) 3)
      - (real i + 1 / 3) / real_of_int N\<bar> \<le> 1 / 10 ^ 14 \<and>
    \<bar>js_add (js_div (of_nat i) (of_int N))
        (js_div (js_mul 2 (js_sub (js_div (of_nat (i + 1)) (of_int N)) (js_div (of_nat i) (of_int N)))) 3)
      - (real i + 2 / 3) / real_of_int N\<bar> \<le> 1 / 10 ^ 14"
proof -
  define n where "n = real_of_int N"
  define t0 where "t0 = real i / n"
  define t1 where "t1 = (real i + 1) / n"
  define c :: real where "c = 1 / 10 ^ 15"
  have c: "c = 1 / 1000000000000000" by (simp add: c_def)
  have n: "1 \<le> n" using N by (simp add: n_def)
  have "real i + 1 \<le> n" using i N unfolding n_def by linarith
  then have r: "0 \<le> t0" "t1 \<le> 1" "t0 \<le> t1"
    using n by (simp_all add: t0_def t1_def field_simps)
  have u1: "(real i + 1 / 3) / n = t0 + (t1 - t0) / 3"
    using n by (simp add: t0_def t1_def field_simps)
  have u2: "(real i + 2 / 3) / n = t0 + 2 * (t1 - t0) / 3"
    using n by (simp add: t0_def t1_def field_simps)
  define a0 where "a0 = fl t0"
  define a1 where "a1 = fl t1"
  define s where "s = fl (a1 - a0)"
  define q where "q = fl (s / 3)"
  define m where "m = fl (a0 + q)"
  define p where "p = fl (2 * s)"
  define q2 where "q2 = fl (p / 3)"
  define m2 where "m2 = fl (a0 + q2)"
  have e0: "\<bar>a0 - t0\<bar> \<le> c" unfolding a0_def c_def using r by (intro fl_near_unit) linarith
  have e1: "\<bar>a1 - t1\<bar> \<le> c" unfolding a1_def c_def using r by (intro fl_near_unit) linarith
  have es: "\<bar>s - (a1 - a0)\<bar> \<le> c"
    unfolding s_def c_def using r e0 e1 c by (intro fl_near_unit) linarith
  have eq: "\<bar>q - s / 3\<bar> \<le> c"
    unfolding q_def c_def using r e0 e1 es c by (intro fl_near_unit) linarith
  have em: "\<bar>m - (a0 + q)\<bar> \<le> c"
    unfolding m_def c_def using r e0 e1 es eq c by (intro fl_near_unit) linarith
  have ep: "\<bar>p - 2 * s\<bar> \<le> c"
    unfolding p_def c_def using r e0 e1 es c by (intro fl_near_unit) linarith
  have eq2: "\<bar>q2 - p / 3\<bar> \<le> c"
    unfolding q2_def c_def using r e0 e1 es ep c by (intro fl_near_unit) linarith
  have em2: "\<bar>m2 - (a0 + q2)\<bar> \<le> c"
    unfolding m2_def c_def using r e0 e1 es ep eq2 c by (intro fl_near_unit) linarith
  have l0: "a0 - t0 \<le> c" "t0 - a0 \<le> c" using e0 by linarith+
  have l1: "a1 - t1 \<le> c" "t1 - a1 \<le> c" using e1 by linarith+
  have ls: "s - (a1 - a0) \<le> c" "(a1 - a0) - s \<le> c" using es by linarith+
  have lq: "q - s / 3 \<le> c" "s / 3 - q \<le> c" using eq by linarith+
  have lm: "m - (a0 + q) \<le> c" "(a0 + q) - m \<le> c" using em by linarith+
  have lp: "p - 2 * s \<le> c" "2 * s - p \<le> c" using ep by linarith+
  have lq2: "q2 - p / 3 \<le> c" "p / 3 - q2 \<le> c" using eq2 by linarith+
  have lm2: "m2 - (a0 + q2) \<le> c" "(a0 + q2) - m2 \<le> c" using em2 by linarith+
  have g0: "\<bar>a0 - t0\<bar> \<le> 1 / 100000000000000" using e0 c by linarith
  have g1: "\<bar>a1 - t1\<bar> \<le> 1 / 100000000000000" using e1 c by linarith
  have c0: "0 \<le> c" by (simp add: c)
  have "m - (t0 + (t1 - t0) / 3) \<le> 10 * c"
    using l0(1) l1(1) ls(1) lq(1) lm(1) c0 by argo
  moreover have "(t0 + (t1 - t0) / 3) - m \<le> 10 * c"
    using l0(2) l1(2) ls(2) lq(2) lm(2) c0 by argo
  ultimately have g2: "\<bar>m - (t0 + (t1 - t0) / 3)\<bar> \<le> 1 / 100000000000000"
    using c by linarith
  have "m2 - (t0 + 2 * (t1 - t0) / 3) \<le> 10 * c"
    using l0(1) l1(1) ls(1) lp(1) lq2(1) lm2(1) c0 by argo
  moreover have "(t0 + 2 * (t1 - t0) / 3) - m2 \<le> 10 * c"
    using l0(2) l1(2) ls(2) lp(2) lq2(2) lm2(2) c0 by argo
  ultimately have g3: "\<bar>m2 - (t0 + 2 * (t1 - t0) / 3)\<bar> \<le> 1 / 100000000000000"
    using c by linarith
  have k: "js_div (of_nat i) (of_int N) = a0" "js_div (of_nat (i + 1)) (of_int N) = a1"
    by (simp_all add: js_div_def a0_def a1_def t0_def t1_def n_def add.commute)
  have km: "js_add a0 (js_div (js_sub a1 a0) 3) = m"
    "js_add a0 (js_div (js_mul 2 (js_sub a1 a0)) 3) = m2"
    by (simp_all add: js_add_def js_sub_def js_div_def js_mul_def m_def q_def s_def m2_def q2_def p_def)
  have g2': "\<bar>m - (real i + 1 / 3) / n\<bar> \<le> 1 / 100000000000000"
    using g2 by (simp only: u1)
  have g3': "\<bar>m2 - (real i + 2 / 3) / n\<bar> \<le> 1 / 100000000000000"
    using g3 by (simp only: u2)
  have F: "0 \<le> real i / real_of_int N \<and> (real i + 1) / real_of_int N \<le> 1 \<and>
    \<bar>a0 - real i / real_of_int N\<bar> \<le> 1 / 10 ^ 14 \<and>
    \<bar>a1 - (real i + 1) / real_of_int N\<bar> \<le> 1 / 10 ^ 14 \<and>
    \<bar>m - (real i + 1 / 3) / real_of_int N\<bar> \<le> 1 / 10 ^ 14 \<and>
    \<bar>m2 - (real i + 2 / 3) / real_of_int N\<bar> \<le> 1 / 10 ^ 14"
    using r(1,2) g0 g1 g2' g3' unfolding t0_def t1_def n_def by simp
  show ?thesis
    unfolding k km by (rule F)
qed

lemma fl_large:
  "fl 10000000000000000 = 10000000000000000"
  "fl (- 10000000000000000) = - 10000000000000000"
  "fl (- 9999999999999999) = - 10000000000000000"
  "fl 1 = 1"
  by code_simp+

text \<open>
  Claim C8, amended. The claim compares the sub-curves with the curve itself, the cubic
  Bernstein polynomial \<open>bezier_curve\<close>, while the code evaluates the curve by three levels of
  \<open>lerp\<close> in binary64. For control points whose coordinates are at most \<open>10^6\<close> in magnitude
  and every segment count \<open>N \<ge> 1\<close> (so for 1, 2 and 5), \<open>splitCubicBezier\<close> returns \<open>N\<close>
  sub-curves, and sub-curve \<open>i\<close> (from 0) has its \<open>p0\<close> within \<open>1e-6\<close> of the curve at
  \<open>i/N\<close>, its \<open>p3\<close> within \<open>1e-6\<close> of the curve at \<open>(i+1)/N\<close>, and its two control points
  within \<open>1e-6\<close> of the curve at \<open>(i+1/3)/N\<close> and \<open>(i+2/3)/N\<close>, the one-third and two-third
  points of its sub-interval. The parameters are exact on the right-hand sides; the code's
  parameters \<open>i/N\<close>, \<open>t0 + (t1 - t0)/3\<close> and \<open>t0 + 2(t1 - t0)/3\<close> are rounded.
\<close>

theorem splitCubicBezier_subcurves:
  assumes "1 \<le> N" and "i < nat N"
    and "moderate p0" and "moderate p1" and "moderate p2" and "moderate p3"
  shows "length (splitCubicBezier p0 p1 p2 p3 N) = nat N \<and>
     (case splitCubicBezier p0 p1 p2 p3 N ! i of (q0, q1, q2, q3) \<Rightarrow>
        near q0 (bezier_curve p0 p1 p2 p3 (real i / real_of_int N)) \<and>
        near q1 (bezier_curve p0 p1 p2 p3 ((real i + 1 / 3) / real_of_int N)) \<and>
        near q2 (bezier_curve p0 p1 p2 p3 ((real i + 2 / 3) / real_of_int N)) \<and>
        near q3 (bezier_curve p0 p1 p2 p3 ((real i + 1) / real_of_int N)))"
proof -
  note m = assms(3-6)
  have len: "length (splitCubicBezier p0 p1 p2 p3 N) = nat N"
    by (simp add: splitCubicBezier_def split_loop_eq)
  have nth: "splitCubicBezier p0 p1 p2 p3 N ! i = split_piece p0 p1 p2 p3 N (1 + int i)"
    using assms(2) by (simp add: splitCubicBezier_def split_loop_eq)
  define n where "n = real_of_int N"
  have n: "1 \<le> n" using assms(1) by (simp add: n_def)
  have "real i + 1 \<le> n" using assms(1,2) unfolding n_def by linarith
  then have r: "0 \<le> real i / n" "(real i + 1) / n \<le> 1"
    "0 \<le> (real i + 1 / 3) / n" "(real i + 1 / 3) / n \<le> 1"
    "0 \<le> (real i + 2 / 3) / n" "(real i + 2 / 3) / n \<le> 1"
    "real i / n \<le> 1" "0 \<le> (real i + 1) / n"
    using n by (simp_all add: field_simps)
  note sp = split_parameters [OF assms(1,2)]
  have t0: "\<bar>js_div (of_nat i) (of_int N) - real i / n\<bar> \<le> 1 / 10 ^ 14"
    and t1: "\<bar>js_div (of_nat (i + 1)) (of_int N) - (real i + 1) / n\<bar> \<le> 1 / 10 ^ 14"
    and t2: "\<bar>js_add (js_div (of_nat i) (of_int N))
        (js_div (js_sub (js_div (of_nat (i + 1)) (of_int N)) (js_div (of_nat i) (of_int N))) 3)
      - (real i + 1 / 3) / n\<bar> \<le> 1 / 10 ^ 14"
    and t3: "\<bar>js_add (js_div (of_nat i) (of_int N))
        (js_div (js_mul 2 (js_sub (js_div (of_nat (i + 1)) (of_int N)) (js_div (of_nat i) (of_int N)))) 3)
      - (real i + 2 / 3) / n\<bar> \<le> 1 / 10 ^ 14"
    using sp unfolding n_def by blast+
  have piece: "split_piece p0 p1 p2 p3 N (1 + int i) =
     (cubicBezierPoint p0 p1 p2 p3 (js_div (of_nat i) (of_int N)),
      cubicBezierPoint p0 p1 p2 p3 (js_add (js_div (of_nat i) (of_int N))
        (js_div (js_sub (js_div (of_nat (i + 1)) (of_int N)) (js_div (of_nat i) (of_int N))) 3)),
      cubicBezierPoint p0 p1 p2 p3 (js_add (js_div (of_nat i) (of_int N))
        (js_div (js_mul 2 (js_sub (js_div (of_nat (i + 1)) (of_int N)) (js_div (of_nat i) (of_int N)))) 3)),
      cubicBezierPoint p0 p1 p2 p3 (js_div (of_nat (i + 1)) (of_int N)))"
    by (simp add: split_piece_def Let_def add.commute)
  have q0: "near (cubicBezierPoint p0 p1 p2 p3 (js_div (of_nat i) (of_int N)))
              (bezier_curve p0 p1 p2 p3 (real i / n))"
    by (rule cubicBezierPoint_near [OF m r(1) r(7) t0])
  have q1: "near (cubicBezierPoint p0 p1 p2 p3 (js_add (js_div (of_nat i) (of_int N))
        (js_div (js_sub (js_div (of_nat (i + 1)) (of_int N)) (js_div (of_nat i) (of_int N))) 3)))
              (bezier_curve p0 p1 p2 p3 ((real i + 1 / 3) / n))"
    by (rule cubicBezierPoint_near [OF m r(3) r(4) t2])
  have q2: "near (cubicBezierPoint p0 p1 p2 p3 (js_add (js_div (of_nat i) (of_int N))
        (js_div (js_mul 2 (js_sub (js_div (of_nat (i + 1)) (of_int N)) (js_div (of_nat i) (of_int N)))) 3)))
              (bezier_curve p0 p1 p2 p3 ((real i + 2 / 3) / n))"
    by (rule cubicBezierPoint_near [OF m r(5) r(6) t3])
  have q3: "near (cubicBezierPoint p0 p1 p2 p3 (js_div (of_nat (i + 1)) (of_int N)))
              (bezier_curve p0 p1 p2 p3 ((real i + 1) / n))"
    by (rule cubicBezierPoint_near [OF m r(8) r(2) t1])
  show ?thesis
    unfolding nth piece using len q0 q1 q2 q3 by (simp add: n_def)
qed

theorem splitCubicBezier_subcurves_witness:
  "(1::int) \<le> 2 \<and> (1::nat) < nat 2 \<and>
   moderate \<lparr>pt_x = 0, pt_y = 0\<rparr> \<and> moderate \<lparr>pt_x = 0, pt_y = 3\<rparr> \<and>
   moderate \<lparr>pt_x = 3, pt_y = 3\<rparr> \<and> moderate \<lparr>pt_x = 3, pt_y = 0\<rparr> \<and>
   length (splitCubicBezier \<lparr>pt_x = 0, pt_y = 0\<rparr> \<lparr>pt_x = 0, pt_y = 3\<rparr>
             \<lparr>pt_x = 3, pt_y = 3\<rparr> \<lparr>pt_x = 3, pt_y = 0\<rparr> 2) = 2 \<and>
   near (fst (splitCubicBezier \<lparr>pt_x = 0, pt_y = 0\<rparr> \<lparr>pt_x = 0, pt_y = 3\<rparr>
             \<lparr>pt_x = 3, pt_y = 3\<rparr> \<lparr>pt_x = 3, pt_y = 0\<rparr> 2 ! 1)) \<lparr>pt_x = 3 / 2, pt_y = 9 / 4\<rparr>"
proof -
  have h: "(1::int) \<le> 2" "(1::nat) < nat 2"
    "moderate \<lparr>pt_x = 0, pt_y = 0\<rparr>" "moderate \<lparr>pt_x = 0, pt_y = 3\<rparr>"
    "moderate \<lparr>pt_x = 3, pt_y = 3\<rparr>" "moderate \<lparr>pt_x = 3, pt_y = 0\<rparr>"
    by (simp_all add: moderate_def)
  have b: "bezier_curve \<lparr>pt_x = 0, pt_y = 0\<rparr> \<lparr>pt_x = 0, pt_y = 3\<rparr>
             \<lparr>pt_x = 3, pt_y = 3\<rparr> \<lparr>pt_x = 3, pt_y = 0\<rparr> (real 1 / real_of_int 2) =
           \<lparr>pt_x = 3 / 2, pt_y = 9 / 4\<rparr>"
    by (simp add: bezier_curve_def bezier_coord_def power2_eq_square power3_eq_cube)
  show ?thesis
    using h splitCubicBezier_subcurves [OF h] b
    by (auto simp: split: prod.splits)
qed

text \<open>
  Claim C8 as stated, for every cubic, fails when the coordinates are large: for the curve
  with \<open>p0 = p1 = p2 = (10^16, 0)\<close> and \<open>p3 = (1, 0)\<close> split into one part, the code's end
  point has \<open>x = 0\<close> (the difference \<open>1 - 10^16\<close> rounds to \<open>-10^16\<close>), while the curve at
  \<open>(0+1)/1\<close> is \<open>p3\<close>, with \<open>x = 1\<close>.
\<close>

theorem splitCubicBezier_large_coordinates:
  "pt_x (snd (snd (snd (splitCubicBezier \<lparr>pt_x = 10000000000000000, pt_y = 0\<rparr>
      \<lparr>pt_x = 10000000000000000, pt_y = 0\<rparr> \<lparr>pt_x = 10000000000000000, pt_y = 0\<rparr>
      \<lparr>pt_x = 1, pt_y = 0\<rparr> 1 ! 0)))) = 0 \<and>
   pt_x (bezier_curve \<lparr>pt_x = 10000000000000000, pt_y = 0\<rparr>
      \<lparr>pt_x = 10000000000000000, pt_y = 0\<rparr> \<lparr>pt_x = 10000000000000000, pt_y = 0\<rparr>
      \<lparr>pt_x = 1, pt_y = 0\<rparr> ((0 + 1) / 1)) = 1"
  by (simp add: splitCubicBezier_def split_loop_eq split_piece_def Let_def cubicBezierPoint_def
      lerp_def js_add_def js_sub_def js_mul_def js_div_def fl_large bezier_curve_def
      bezier_coord_def)

section \<open>Incomplete parameter groups\<close>

lemma segments_loop_append:
  assumes "upper \<noteq> CHR ''Z''" and "0 < paramCount" and "length rest < paramCount"
    and "paramCount dvd length whole"
  shows "segments_loop random jitter upper relative paramCount (whole @ rest) st =
         segments_loop random jitter upper relative paramCount whole st"
  using assms
proof (induction random jitter upper relative paramCount whole st rule: segments_loop.induct)
  case (1 random jitter upper relative paramCount params st)
  show ?case
  proof (cases "params = []")
    case True
    with 1(2-4) show ?thesis
      by (simp add: segments_loop_nil segments_loop_short)
  next
    case False
    then have "0 < length params" by simp
    with 1(5) have len: "paramCount \<le> length params"
      by (rule dvd_imp_le)
    have "paramCount dvd length params - paramCount"
      using 1(5) dvd_refl by (rule dvd_diff_nat)
    then have dv: "paramCount dvd length (drop paramCount params)"
      by simp
    have "segments_loop random jitter upper relative paramCount (params @ rest) st =
          segments_loop random jitter upper relative paramCount (drop paramCount params @ rest)
            (dispatch random jitter upper relative (take paramCount params) st)"
      using False len 1(2,3) by (subst segments_loop.simps) (simp add: Let_def)
    also have "\<dots> = segments_loop random jitter upper relative paramCount (drop paramCount params)
            (dispatch random jitter upper relative (take paramCount params) st)"
      using "1.IH" [OF _ _ refl _ _ 1(2) 1(3) 1(4) dv] False len 1(2,3) by simp
    also have "\<dots> = segments_loop random jitter upper relative paramCount params st"
      using False len 1(2,3) by (subst (2) segments_loop.simps) (simp add: Let_def)
    finally show ?thesis .
  qed
qed

text \<open>
  Claim C7. When the parameters of a command are some whole groups followed by fewer
  parameters than the command takes, the interpreter does what it does on the whole groups
  alone: nothing is emitted for the trailing part and the current point is the one left by
  the last whole group. With no whole group (as for \<open>L10\<close>) the state is unchanged.
\<close>

theorem incomplete_trailing_command_dropped:
  assumes "paramCounts (toUpperCase command) = Some paramCount"
    and "parseParams paramsStr = whole @ rest"
    and "paramCount dvd length whole"
    and "length rest < paramCount"
  shows "process_command random jitter st (command, paramsStr) =
           segments_loop random jitter (toUpperCase command) (command \<noteq> toUpperCase command)
             paramCount whole st \<and>
         (whole = [] \<longrightarrow> process_command random jitter st (command, paramsStr) = st)"
proof -
  from assms(4) have pos: "0 < paramCount" by simp
  with assms(1) have nz: "toUpperCase command \<noteq> CHR ''Z''"
    using paramCounts_zero_iff by auto
  have "process_command random jitter st (command, paramsStr) =
        segments_loop random jitter (toUpperCase command) (command \<noteq> toUpperCase command)
          paramCount (whole @ rest) st"
    using assms(1,2) by (simp add: process_command_def Let_def)
  then have eq: "process_command random jitter st (command, paramsStr) =
        segments_loop random jitter (toUpperCase command) (command \<noteq> toUpperCase command)
          paramCount whole st"
    using segments_loop_append [OF nz pos assms(4) assms(3)] by simp
  moreover have "segments_loop random jitter (toUpperCase command) (command \<noteq> toUpperCase command)
          paramCount [] st = st"
    using pos by (rule segments_loop_nil)
  ultimately show ?thesis by simp
qed

lemma tokenize_L10: "tokenize ''L10'' = [(CHR ''L'', ''10'')]"
  by code_simp

lemma parseParams_10: "parseParams ''10'' = [10]"
  by code_simp

theorem incomplete_trailing_command_dropped_witness:
  "paramCounts (toUpperCase CHR ''L'') = Some 2 \<and> parseParams ''10'' = [] @ [10] \<and>
   2 dvd length ([] :: number list) \<and> length [10 :: number] < 2 \<and>
   run_path (constant_random (1 / 2)) 0 ''L10'' 1 = initial_state 0 \<and>
   distortPath (constant_random (1 / 2)) 0 ''L10'' 1 = []"
proof -
  have a: "paramCounts (toUpperCase CHR ''L'') = Some 2"
    by (simp add: toUpperCase_def paramCounts_def)
  have b: "parseParams ''10'' = [] @ [10]"
    by (simp add: parseParams_10)
  have c: "2 dvd length ([] :: number list)" by simp
  have d: "length [10 :: number] < 2" by simp
  have "process_command (constant_random (1 / 2)) 1 (initial_state 0) (CHR ''L'', ''10'') =
        initial_state 0"
    using conjunct2 [OF incomplete_trailing_command_dropped
            [OF a b c d, of "constant_random (1 / 2)" 1 "initial_state 0"]] by (rule mp) simp
  then have e: "run_path (constant_random (1 / 2)) 0 ''L10'' 1 = initial_state 0"
    by (simp add: run_path_def tokenize_L10)
  then have "distortPath (constant_random (1 / 2)) 0 ''L10'' 1 = []"
    by (simp add: distortPath_def initial_state_def js_trim_def)
  with a b c d e show ?thesis by (intro conjI)
qed

section \<open>The arc converter on radii that are too small\<close>

lemma arc_loop_eq:
  "arc_loop cxCenter cyCenter rx ry sinPhi cosPhi startAngle delta segments i beziers =
     beziers @ map (arc_piece cxCenter cyCenter rx ry sinPhi cosPhi startAngle delta) [i..segments - 1]"
proof (induction cxCenter cyCenter rx ry sinPhi cosPhi startAngle delta segments i beziers
       rule: arc_loop.induct)
  case (1 cxCenter cyCenter rx ry sinPhi cosPhi startAngle delta segments i beziers)
  show ?case
  proof (cases "i < segments")
    case True
    then have "[i..segments - 1] = i # [i + 1..segments - 1]" by (simp add: upto_rec1)
    with True 1 show ?thesis by (subst arc_loop.simps) simp
  next
    case False
    then show ?thesis by (subst arc_loop.simps) simp
  qed
qed

lemma sqrt_25: "sqrt 25 = 5"
  using real_sqrt_abs [of 5] by simp

lemma narrow_arc_segments:
  "arcToCubicBeziers narrow_arc = map (arc_piece 5 0 1 1 0 1 pi (pi / 12)) [0..11]"
  by (simp add: arcToCubicBeziers_def narrow_arc_def toRadians_def atan2_def sqrt_25 arc_loop_eq
      Let_def)

text \<open>
  Claim C3, at the arc from \<open>(0, 0)\<close> to \<open>(10, 0)\<close> with radii 1, no rotation, small arc,
  positive sweep. The first segment of the result starts at \<open>(4, 0)\<close>, not at the start
  point of the arc: the segment points are computed with the radii as given, not with the
  scaled ones.
\<close>

theorem narrow_arc_first_point:
  "length (arcToCubicBeziers narrow_arc) = 12 \<and>
   fst (hd (arcToCubicBeziers narrow_arc)) = \<lparr>pt_x = 4, pt_y = 0\<rparr>"
  by (simp add: narrow_arc_segments upto_rec1 [of 0 11] arc_piece_def Let_def)

text \<open>
  Claim C2, at the same arc: its radii are too small (\<open>lambda = 25\<close>), and the chain of
  segments ends at \<open>(6, 0)\<close>, not at the requested end point \<open>(10, 0)\<close>.
\<close>

theorem narrow_arc_last_point:
  "length (arcToCubicBeziers narrow_arc) = 12 \<and>
   snd (snd (snd (last (arcToCubicBeziers narrow_arc)))) = \<lparr>pt_x = 6, pt_y = 0\<rparr>"
proof -
  have "[0..11::int] = [0..10] @ [11]" by (simp add: upto_rec2)
  moreover have "pi + 11 * (pi / 12) + pi / 12 = 2 * pi" by simp
  ultimately show ?thesis
    by (simp add: narrow_arc_segments arc_piece_def Let_def)
qed

section \<open>The current point after each command\<close>

lemma distort_pairs_length:
  "even (length sp) \<Longrightarrow> length (distort_pairs random jitter relative cur n sp) = length sp"
  by (induction random jitter relative cur n sp rule: distort_pairs.induct) (simp_all add: Let_def)

lemma distort_pairs_nth:
  "even (length sp) \<Longrightarrow> i < length sp \<Longrightarrow>
   distort_pairs random jitter relative cur n sp ! i =
     distortCoord random jitter (n + i)
       (resolve relative (sp ! i) (if even i then pt_x cur else pt_y cur))"
proof (induction random jitter relative cur n sp arbitrary: i rule: distort_pairs.induct)
  case (1 random jitter relative cur n x0 y0 rest)
  show ?case
  proof (cases i)
    case 0
    then show ?thesis by (simp add: Let_def resolve_def)
  next
    case (Suc j)
    show ?thesis
    proof (cases j)
      case 0
      with Suc show ?thesis by (simp add: Let_def resolve_def)
    next
      case (Suc k)
      with \<open>i = Suc j\<close> 1 show ?thesis by (simp add: Let_def)
    qed
  qed
qed simp_all

lemma foldl_arc_emit_point:
  "currentPoint (foldl (arc_emit random jitter) st bs) =
     (if bs = [] then currentPoint st else snd (snd (snd (last bs))))"
  by (induction bs arbitrary: st) (auto simp: arc_emit_def Let_def split: prod.splits)

lemma foldl_arc_emit_start:
  "subpathStart (foldl (arc_emit random jitter) st bs) = subpathStart st"
  by (induction bs arbitrary: st) (auto simp: arc_emit_def Let_def split: prod.splits)

lemma foldl_arc_emit_pieces:
  "map piece_letter (rebuiltPath (foldl (arc_emit random jitter) st bs)) =
     map piece_letter (rebuiltPath st) @ replicate (length bs) (Some CHR ''C'')"
  by (induction bs arbitrary: st)
     (auto simp: arc_emit_def Let_def replicate_append_same split: prod.splits)

lemma general_group:
  assumes "upper \<in> set ''MCSQT''" and "paramCounts upper = Some (length sp)"
  shows "let st' = dispatch random jitter upper relative sp st; k = length sp
         in \<exists>coords. rebuiltPath st' = rebuiltPath st @ [Cmd upper coords] \<and> length coords = k \<and>
              coords ! (k - 2) = distortCoord random jitter (randomCalls st + (k - 2))
                (resolve relative (sp ! (k - 2)) (pt_x (currentPoint st))) \<and>
              coords ! (k - 1) = distortCoord random jitter (randomCalls st + (k - 1))
                (resolve relative (sp ! (k - 1)) (pt_y (currentPoint st))) \<and>
              currentPoint st' = \<lparr>pt_x = coords ! (k - 2), pt_y = coords ! (k - 1)\<rparr> \<and>
              subpathStart st' = (if upper = CHR ''M'' then currentPoint st' else subpathStart st)"
proof -
  from assms have ev: "even (length sp)" and ge: "2 \<le> length sp"
    by (auto simp: paramCounts_def split: if_splits)
  define coords where "coords = distort_pairs random jitter relative (currentPoint st) (randomCalls st) sp"
  have len: "length coords = length sp"
    unfolding coords_def by (rule distort_pairs_length [OF ev])
  have e2: "even (length sp - 2)" and o1: "odd (length sp - 1)"
    using ev ge by auto
  have x: "coords ! (length sp - 2) = distortCoord random jitter (randomCalls st + (length sp - 2))
                (resolve relative (sp ! (length sp - 2)) (pt_x (currentPoint st)))"
    unfolding coords_def using ge e2 by (subst distort_pairs_nth [OF ev]) simp_all
  have y: "coords ! (length sp - 1) = distortCoord random jitter (randomCalls st + (length sp - 1))
                (resolve relative (sp ! (length sp - 1)) (pt_y (currentPoint st)))"
    unfolding coords_def using ge o1 by (subst distort_pairs_nth [OF ev]) simp_all
  have d: "dispatch random jitter upper relative sp st = general_command random jitter upper relative sp st"
    using assms(1) by (auto simp: dispatch_def)
  show ?thesis
    unfolding Let_def d
    apply (rule exI [of _ coords])
    using assms(1) len x y
    by (auto simp: general_command_def Let_def coords_def [symmetric])
qed

text \<open>
  Claim C9, amended in its arc case. One whole group of parameters of a command changes the
  state as follows. M, C, S, Q, T: the current point becomes the last pair of numbers
  emitted, which are the jittered values of the last absolute pair, and for M the subpath
  start becomes that point too. L: the current point becomes the absolute end point without
  jitter, while the emitted cubic ends at its jittered value. H and V: the same, with the
  other coordinate kept. A: the current point becomes the end point \<open>p3\<close>, without jitter,
  of the last segment the arc converter returned, and stays as it was when the converter
  returned no segment. (The parameter list of L, H, V and A is read by index, as the source
  does.)
\<close>

theorem current_point_rule:
  "(upper \<in> set ''MCSQT'' \<and> paramCounts upper = Some (length sp) \<longrightarrow>
      (let st' = dispatch random jitter upper relative sp st; k = length sp
       in \<exists>coords. rebuiltPath st' = rebuiltPath st @ [Cmd upper coords] \<and> length coords = k \<and>
            coords ! (k - 2) = distortCoord random jitter (randomCalls st + (k - 2))
              (resolve relative (sp ! (k - 2)) (pt_x (currentPoint st))) \<and>
            coords ! (k - 1) = distortCoord random jitter (randomCalls st + (k - 1))
              (resolve relative (sp ! (k - 1)) (pt_y (currentPoint st))) \<and>
            currentPoint st' = \<lparr>pt_x = coords ! (k - 2), pt_y = coords ! (k - 1)\<rparr> \<and>
            subpathStart st' = (if upper = CHR ''M'' then currentPoint st' else subpathStart st))) \<and>
   (let st' = dispatch random jitter CHR ''L'' relative sp st;
        x = resolve relative (sp ! 0) (pt_x (currentPoint st));
        y = resolve relative (sp ! 1) (pt_y (currentPoint st))
    in currentPoint st' = \<lparr>pt_x = x, pt_y = y\<rparr> \<and> subpathStart st' = subpathStart st \<and>
       (\<exists>c1x c1y c2x c2y. rebuiltPath st' = rebuiltPath st @
          [Cmd CHR ''C'' [c1x, c1y, c2x, c2y,
             distortCoord random jitter (randomCalls st + 4) x,
             distortCoord random jitter (randomCalls st + 5) y]])) \<and>
   (let st' = dispatch random jitter CHR ''H'' relative sp st;
        x = resolve relative (sp ! 0) (pt_x (currentPoint st))
    in currentPoint st' = \<lparr>pt_x = x, pt_y = pt_y (currentPoint st)\<rparr> \<and>
       subpathStart st' = subpathStart st \<and>
       rebuiltPath st' = rebuiltPath st @
          [Cmd CHR ''L'' [distortCoord random jitter (randomCalls st) x,
             distortCoord random jitter (randomCalls st + 1) (pt_y (currentPoint st))]]) \<and>
   (let st' = dispatch random jitter CHR ''V'' relative sp st;
        y = resolve relative (sp ! 0) (pt_y (currentPoint st))
    in currentPoint st' = \<lparr>pt_x = pt_x (currentPoint st), pt_y = y\<rparr> \<and>
       subpathStart st' = subpathStart st \<and>
       rebuiltPath st' = rebuiltPath st @
          [Cmd CHR ''L'' [distortCoord random jitter (randomCalls st + 1) (pt_x (currentPoint st)),
             distortCoord random jitter (randomCalls st) y]]) \<and>
   (let st' = dispatch random jitter CHR ''A'' relative sp st;
        beziers = arcToCubicBeziers
          \<lparr>arc_px = pt_x (currentPoint st), arc_py = pt_y (currentPoint st),
           arc_cx = resolve relative (sp ! 5) (pt_x (currentPoint st)),
           arc_cy = resolve relative (sp ! 6) (pt_y (currentPoint st)),
           arc_rx = sp ! 0, arc_ry = sp ! 1, arc_xAxisRotation = sp ! 2,
           arc_largeArcFlag = (sp ! 3 \<noteq> 0), arc_sweepFlag = (sp ! 4 \<noteq> 0)\<rparr>
    in currentPoint st' = (if beziers = [] then currentPoint st else snd (snd (snd (last beziers)))) \<and>
       subpathStart st' = subpathStart st \<and>
       map piece_letter (rebuiltPath st') =
         map piece_letter (rebuiltPath st) @ replicate (length beziers) (Some CHR ''C''))"
proof -
  have l: "let st' = dispatch random jitter CHR ''L'' relative sp st;
        x = resolve relative (sp ! 0) (pt_x (currentPoint st));
        y = resolve relative (sp ! 1) (pt_y (currentPoint st))
    in currentPoint st' = \<lparr>pt_x = x, pt_y = y\<rparr> \<and> subpathStart st' = subpathStart st \<and>
       (\<exists>c1x c1y c2x c2y. rebuiltPath st' = rebuiltPath st @
          [Cmd CHR ''C'' [c1x, c1y, c2x, c2y,
             distortCoord random jitter (randomCalls st + 4) x,
             distortCoord random jitter (randomCalls st + 5) y]])"
    by (simp add: dispatch_def line_command_def lineToBezier_def Let_def resolve_def)
  have h: "let st' = dispatch random jitter CHR ''H'' relative sp st;
        x = resolve relative (sp ! 0) (pt_x (currentPoint st))
    in currentPoint st' = \<lparr>pt_x = x, pt_y = pt_y (currentPoint st)\<rparr> \<and>
       subpathStart st' = subpathStart st \<and>
       rebuiltPath st' = rebuiltPath st @
          [Cmd CHR ''L'' [distortCoord random jitter (randomCalls st) x,
             distortCoord random jitter (randomCalls st + 1) (pt_y (currentPoint st))]]"
    by (simp add: dispatch_def horizontal_command_def Let_def resolve_def)
  have v: "let st' = dispatch random jitter CHR ''V'' relative sp st;
        y = resolve relative (sp ! 0) (pt_y (currentPoint st))
    in currentPoint st' = \<lparr>pt_x = pt_x (currentPoint st), pt_y = y\<rparr> \<and>
       subpathStart st' = subpathStart st \<and>
       rebuiltPath st' = rebuiltPath st @
          [Cmd CHR ''L'' [distortCoord random jitter (randomCalls st + 1) (pt_x (currentPoint st)),
             distortCoord random jitter (randomCalls st) y]]"
    by (simp add: dispatch_def vertical_command_def Let_def resolve_def)
  have a: "let st' = dispatch random jitter CHR ''A'' relative sp st;
        beziers = arcToCubicBeziers
          \<lparr>arc_px = pt_x (currentPoint st), arc_py = pt_y (currentPoint st),
           arc_cx = resolve relative (sp ! 5) (pt_x (currentPoint st)),
           arc_cy = resolve relative (sp ! 6) (pt_y (currentPoint st)),
           arc_rx = sp ! 0, arc_ry = sp ! 1, arc_xAxisRotation = sp ! 2,
           arc_largeArcFlag = (sp ! 3 \<noteq> 0), arc_sweepFlag = (sp ! 4 \<noteq> 0)\<rparr>
    in currentPoint st' = (if beziers = [] then currentPoint st else snd (snd (snd (last beziers)))) \<and>
       subpathStart st' = subpathStart st \<and>
       map piece_letter (rebuiltPath st') =
         map piece_letter (rebuiltPath st) @ replicate (length beziers) (Some CHR ''C'')"
    by (simp add: dispatch_def arc_command_def Let_def resolve_def foldl_arc_emit_point
        foldl_arc_emit_start foldl_arc_emit_pieces)
  show ?thesis
    using general_group [of upper sp random jitter relative st] l h v a by blast
qed

lemma fl_jitter_facts:
  "fl (- (1 / 4)) = - (1 / 4)" "fl (- (1 / 2)) = - (1 / 2)" "fl (19 / 2) = 19 / 2" "fl 10 = 10"
  by code_simp+

lemma distortCoord_quarter:
  "distortCoord (constant_random (1 / 4)) 1 k 10 = 19 / 2"
  "distortCoord (constant_random (1 / 4)) 1 k 0 = - (1 / 2)"
  by (simp_all add: distortCoord_def constant_random_def js_add_def js_sub_def js_mul_def
      fl_jitter_facts)

theorem current_point_rule_witness:
  "CHR ''M'' \<in> set ''MCSQT'' \<and> paramCounts CHR ''M'' = Some (length [10, 0 :: number]) \<and>
   currentPoint (dispatch (constant_random (1 / 4)) 1 CHR ''M'' False [10, 0] (initial_state 0)) =
     \<lparr>pt_x = 19 / 2, pt_y = - (1 / 2)\<rparr> \<and>
   subpathStart (dispatch (constant_random (1 / 4)) 1 CHR ''M'' False [10, 0] (initial_state 0)) =
     \<lparr>pt_x = 19 / 2, pt_y = - (1 / 2)\<rparr> \<and>
   currentPoint (dispatch (constant_random (1 / 4)) 1 CHR ''L'' False [10, 0] (initial_state 0)) =
     \<lparr>pt_x = 10, pt_y = 0\<rparr> \<and>
   map (\<lambda>p. case p of Cmd c args \<Rightarrow> drop 4 args | Raw s \<Rightarrow> [])
     (rebuiltPath (dispatch (constant_random (1 / 4)) 1 CHR ''L'' False [10, 0] (initial_state 0))) =
     [[19 / 2, - (1 / 2)]]"
proof -
  have h: "CHR ''M'' \<in> set ''MCSQT''" "paramCounts CHR ''M'' = Some (length [10, 0 :: number])"
    by (simp_all add: paramCounts_def)
  show ?thesis
    using h current_point_rule [of "CHR ''M''" "[10, 0]" "constant_random (1 / 4)" 1 False
        "initial_state 0"]
    by (auto simp: Let_def resolve_def distortCoord_quarter initial_state_def)
qed

lemma tokenize_flat_arc: "tokenize ''A0,0 0 0 1 10,0'' = [(CHR ''A'', ''0,0 0 0 1 10,0'')]"
  by code_simp

lemma parseParams_flat_arc: "parseParams ''0,0 0 0 1 10,0'' = [0, 0, 0, 0, 1, 10, 0]"
  by code_simp

lemma tokenize_narrow_arc: "tokenize ''A1,1 0 0 1 10,0'' = [(CHR ''A'', ''1,1 0 0 1 10,0'')]"
  by code_simp

lemma parseParams_narrow_arc: "parseParams ''1,1 0 0 1 10,0'' = [1, 1, 0, 0, 1, 10, 0]"
  by code_simp

lemma flat_arc_empty:
  "arcToCubicBeziers \<lparr>arc_px = 0, arc_py = 0, arc_cx = 10, arc_cy = 0, arc_rx = 0, arc_ry = 0,
     arc_xAxisRotation = 0, arc_largeArcFlag = False, arc_sweepFlag = True\<rparr> = []"
  by (simp add: arcToCubicBeziers_def Let_def)

text \<open>
  Claim C9 as stated fails for arcs. After \<open>A0,0 0 0 1 10,0\<close> from the origin the
  converter returns no segment and the current point is still the origin; after
  \<open>A1,1 0 0 1 10,0\<close> it is \<open>(6, 0)\<close>. The absolute end point is \<open>(10, 0)\<close> in both.
\<close>

theorem arc_current_point_not_end_point:
  "currentPoint (run_path (constant_random (1 / 2)) 0 ''A0,0 0 0 1 10,0'' 0) =
     \<lparr>pt_x = 0, pt_y = 0\<rparr> \<and>
   currentPoint (run_path (constant_random (1 / 2)) 0 ''A1,1 0 0 1 10,0'' 0) =
     \<lparr>pt_x = 6, pt_y = 0\<rparr>"
proof -
  have a: "run_path (constant_random (1 / 2)) 0 ''A0,0 0 0 1 10,0'' 0 = initial_state 0"
    by (simp add: run_path_def tokenize_flat_arc process_command_def toUpperCase_upper
        parseParams_flat_arc paramCounts_def
        segments_loop.simps [of _ _ _ _ _ "[0, 0, 0, 0, 1, 10, 0]"] segments_loop_nil
        dispatch_def arc_command_def Let_def initial_state_def flat_arc_empty)
  have "[0..11::int] = [0..10] @ [11]" by (simp add: upto_rec2)
  moreover have "pi + 11 * (pi / 12) + pi / 12 = 2 * pi" by simp
  ultimately have l: "snd (snd (snd (last (arcToCubicBeziers narrow_arc)))) = \<lparr>pt_x = 6, pt_y = 0\<rparr>"
    by (simp add: narrow_arc_segments arc_piece_def Let_def)
  have ne: "arcToCubicBeziers narrow_arc \<noteq> []"
    by (simp add: narrow_arc_segments upto_rec1 [of 0 11])
  have b: "currentPoint (run_path (constant_random (1 / 2)) 0 ''A1,1 0 0 1 10,0'' 0) =
     \<lparr>pt_x = 6, pt_y = 0\<rparr>"
    using l ne
    by (simp add: run_path_def tokenize_narrow_arc process_command_def toUpperCase_upper
        parseParams_narrow_arc paramCounts_def
        segments_loop.simps [of _ _ _ _ _ "[1, 1, 0, 0, 1, 10, 0]"] segments_loop_nil
        dispatch_def arc_command_def Let_def initial_state_def foldl_arc_emit_point
        narrow_arc_def [symmetric])
  show ?thesis
    using a b by (simp add: initial_state_def)
qed

section \<open>The commands of the output\<close>

lemma whole_groups_short: "length xs < k \<Longrightarrow> whole_groups k xs = []"
  by (subst whole_groups.simps) simp

lemma whole_groups_step:
  "0 < k \<Longrightarrow> k \<le> length xs \<Longrightarrow> whole_groups k xs = take k xs # whole_groups k (drop k xs)"
  by (subst whole_groups.simps) simp

lemma segments_loop_groups:
  assumes "upper \<noteq> CHR ''Z''" and "0 < paramCount"
  shows "segments_loop random jitter upper relative paramCount params st =
         foldl (\<lambda>s sp. dispatch random jitter upper relative sp s) st (whole_groups paramCount params)"
  using assms
proof (induction random jitter upper relative paramCount params st rule: segments_loop.induct)
  case (1 random jitter upper relative paramCount params st)
  show ?case
  proof (cases "length params < paramCount")
    case True
    then show ?thesis
      using 1(2) by (simp add: segments_loop_short whole_groups_short)
  next
    case False
    then have len: "paramCount \<le> length params" by simp
    with 1(3) have ne: "params \<noteq> []" by auto
    have "segments_loop random jitter upper relative paramCount params st =
          segments_loop random jitter upper relative paramCount (drop paramCount params)
            (dispatch random jitter upper relative (take paramCount params) st)"
      using ne len 1(2,3) by (subst segments_loop.simps) (simp add: Let_def)
    also have "\<dots> = foldl (\<lambda>s sp. dispatch random jitter upper relative sp s)
            (dispatch random jitter upper relative (take paramCount params) st)
            (whole_groups paramCount (drop paramCount params))"
      using "1.IH" [OF _ _ refl _ _ 1(2) 1(3)] ne len 1(2,3) by simp
    also have "\<dots> = foldl (\<lambda>s sp. dispatch random jitter upper relative sp s) st
            (whole_groups paramCount params)"
      using len 1(3) by (simp add: whole_groups_step)
    finally show ?thesis .
  qed
qed

lemma foldl_arc_emit_cubics:
  "rebuiltPath (foldl (arc_emit random jitter) st bs) =
     rebuiltPath st @ map (\<lambda>k. jittered_cubic random jitter (randomCalls st + 6 * k) (bs ! k))
                        [0..<length bs] \<and>
   randomCalls (foldl (arc_emit random jitter) st bs) = randomCalls st + 6 * length bs"
proof (induction bs rule: rev_induct)
  case Nil
  then show ?case by simp
next
  case (snoc b bs)
  have m: "map (\<lambda>k. jittered_cubic random jitter (randomCalls st + 6 * k) ((bs @ [b]) ! k))
             [0..<length bs] =
           map (\<lambda>k. jittered_cubic random jitter (randomCalls st + 6 * k) (bs ! k)) [0..<length bs]"
    by (simp add: nth_append)
  show ?case
    using snoc m
    by (cases b) (simp add: arc_emit_def Let_def jittered_cubic_def nth_append)
qed

lemma distort_pairs_map:
  assumes "even (length sp)"
  shows "distort_pairs random jitter relative cur n sp =
     map (\<lambda>i. distortCoord random jitter (n + i)
                (resolve relative (sp ! i) (if even i then pt_x cur else pt_y cur)))
       [0..<length sp]"
  by (rule nth_equalityI)
     (simp_all add: distort_pairs_length [OF assms] distort_pairs_nth [OF assms])

lemma list_all_arc_emit:
  assumes "\<And>args. P (Cmd CHR ''C'' args)" and "list_all P (rebuiltPath st)"
  shows "list_all P (rebuiltPath (foldl (arc_emit random jitter) st bs))"
  using assms(2)
  by (induction bs arbitrary: st) (auto simp: arc_emit_def Let_def assms(1) split: prod.splits)

lemma list_all_dispatch:
  assumes "\<And>args. P (Cmd CHR ''C'' args)"
    and "\<And>args. upper = CHR ''H'' \<or> upper = CHR ''V'' \<Longrightarrow> P (Cmd CHR ''L'' args)"
    and "\<And>args. upper \<notin> set ''AHVL'' \<Longrightarrow> P (Cmd upper args)"
    and "list_all P (rebuiltPath st)"
  shows "list_all P (rebuiltPath (dispatch random jitter upper relative sp st))"
proof -
  have a: "list_all P (rebuiltPath (arc_command random jitter relative sp st))"
    using assms(1,4) by (simp add: arc_command_def Let_def list_all_arc_emit)
  have l: "list_all P (rebuiltPath (line_command random jitter relative sp st))"
    using assms(1,4) by (simp add: line_command_def Let_def split: prod.splits)
  have h: "list_all P (rebuiltPath (horizontal_command random jitter relative sp st))"
    if "upper = CHR ''H''"
    using that assms(2,4) by (simp add: horizontal_command_def Let_def)
  have v: "list_all P (rebuiltPath (vertical_command random jitter relative sp st))"
    if "upper = CHR ''V''"
    using that assms(2,4) by (simp add: vertical_command_def Let_def)
  have g: "list_all P (rebuiltPath (general_command random jitter upper relative sp st))"
    if "upper \<notin> set ''AHVL''"
    using assms(3) [OF that] assms(4) by (auto simp: general_command_def Let_def)
  show ?thesis
    using a l h v g by (auto simp: dispatch_def)
qed

lemma list_all_foldl_dispatch:
  assumes "\<And>args. P (Cmd CHR ''C'' args)"
    and "\<And>args. upper = CHR ''H'' \<or> upper = CHR ''V'' \<Longrightarrow> P (Cmd CHR ''L'' args)"
    and "\<And>args. upper \<notin> set ''AHVL'' \<Longrightarrow> P (Cmd upper args)"
    and "list_all P (rebuiltPath st)"
  shows "list_all P (rebuiltPath (foldl (\<lambda>s sp. dispatch random jitter upper relative sp s) st gs))"
  using assms(4)
proof (induction gs arbitrary: st)
  case Nil
  then show ?case by simp
next
  case (Cons g gs)
  have "list_all P (rebuiltPath (dispatch random jitter upper relative g st))"
    using assms(1-3) Cons.prems by (rule list_all_dispatch)
  then show ?case
    using Cons.IH by simp
qed

lemma process_command_close:
  assumes "toUpperCase command = CHR ''Z''"
  shows "process_command random jitter st (command, paramsStr) = close_path st"
  using assms by (simp add: process_command_def paramCounts_def Let_def segments_loop.simps)

lemma process_command_groups:
  assumes "paramCounts (toUpperCase command) = Some paramCount"
    and "toUpperCase command \<noteq> CHR ''Z''"
  shows "process_command random jitter st (command, paramsStr) =
     foldl (\<lambda>s sp. dispatch random jitter (toUpperCase command) (command \<noteq> toUpperCase command) sp s)
       st (whole_groups paramCount (parseParams paramsStr))"
proof -
  have "0 < paramCount"
    using assms paramCounts_zero_iff [OF assms(1)] by simp
  then show ?thesis
    using assms by (simp add: process_command_def Let_def segments_loop_groups)
qed

lemma process_command_unknown:
  assumes "paramCounts (toUpperCase command) = None"
  shows "process_command random jitter st (command, paramsStr) =
     st\<lparr>rebuiltPath := rebuiltPath st @ [Raw (command # paramsStr)]\<rparr>"
  using assms by (simp add: process_command_def Let_def)

lemma general_letters:
  "paramCounts upper = Some paramCount \<Longrightarrow> upper \<noteq> CHR ''Z'' \<Longrightarrow> upper \<notin> set ''AHVL'' \<Longrightarrow>
   upper \<in> set ''MCSQT''"
  by (auto simp: paramCounts_def split: if_splits)

lemma list_all_process_command:
  assumes "m \<in> set (tokenize d)" and "list_all (allowed_piece d) (rebuiltPath st)"
  shows "list_all (allowed_piece d) (rebuiltPath (process_command random jitter st m))"
proof -
  obtain command paramsStr where m: "m = (command, paramsStr)" by (cases m)
  define upper where "upper = toUpperCase command"
  have u: "upper \<in> letters_of d"
    using assms(1) m by (force simp: letters_of_def upper_def)
  show ?thesis
  proof (cases "paramCounts upper")
    case None
    have "allowed_piece d (Raw (command # paramsStr))"
      using assms(1) m None by (force simp: allowed_piece_def list_ex_iff upper_def)
    then show ?thesis
      using None assms(2) m by (simp add: process_command_unknown upper_def)
  next
    case (Some paramCount)
    show ?thesis
    proof (cases "upper = CHR ''Z''")
      case True
      then show ?thesis
        using assms(2) m
        by (simp add: process_command_close upper_def close_path_def allowed_piece_def)
    next
      case False
      have c: "\<And>args. allowed_piece d (Cmd CHR ''C'' args)"
        by (simp add: allowed_piece_def)
      have l: "\<And>args. upper = CHR ''H'' \<or> upper = CHR ''V'' \<Longrightarrow> allowed_piece d (Cmd CHR ''L'' args)"
        using u by (auto simp: allowed_piece_def)
      have g: "\<And>args. upper \<notin> set ''AHVL'' \<Longrightarrow> allowed_piece d (Cmd upper args)"
        using general_letters [OF Some False] u by (auto simp: allowed_piece_def)
      have "list_all (allowed_piece d) (rebuiltPath
              (foldl (\<lambda>s sp. dispatch random jitter upper (command \<noteq> upper) sp s) st
                 (whole_groups paramCount (parseParams paramsStr))))"
        using c l g assms(2) by (rule list_all_foldl_dispatch)
      then show ?thesis
        using Some False m by (simp add: process_command_groups upper_def)
    qed
  qed
qed

lemma list_all_foldl_process:
  assumes "set ms \<subseteq> set (tokenize d)" and "list_all (allowed_piece d) (rebuiltPath st)"
  shows "list_all (allowed_piece d) (rebuiltPath (foldl (process_command random jitter) st ms))"
  using assms
proof (induction ms arbitrary: st)
  case Nil
  then show ?case by simp
next
  case (Cons m ms)
  have "list_all (allowed_piece d) (rebuiltPath (process_command random jitter st m))"
    using Cons.prems by (intro list_all_process_command) auto
  then show ?case
    using Cons by simp
qed

lemma run_path_allowed:
  "list_all (allowed_piece d) (rebuiltPath (run_path random n d jitter))"
  unfolding run_path_def
  by (rule list_all_foldl_process) (simp_all add: initial_state_def)

lemma line_group:
  "rebuiltPath (dispatch random jitter CHR ''L'' relative sp s) =
     rebuiltPath s @ [jittered_cubic random jitter (randomCalls s)
        (lineToBezier (currentPoint s)
           \<lparr>pt_x = resolve relative (sp ! 0) (pt_x (currentPoint s)),
            pt_y = resolve relative (sp ! 1) (pt_y (currentPoint s))\<rparr>)] \<and>
   randomCalls (dispatch random jitter CHR ''L'' relative sp s) = randomCalls s + 6"
  by (simp add: dispatch_def line_command_def lineToBezier_def Let_def resolve_def
      jittered_cubic_def)

lemma arc_group:
  "let beziers = arcToCubicBeziers
          \<lparr>arc_px = pt_x (currentPoint s), arc_py = pt_y (currentPoint s),
           arc_cx = resolve relative (sp ! 5) (pt_x (currentPoint s)),
           arc_cy = resolve relative (sp ! 6) (pt_y (currentPoint s)),
           arc_rx = sp ! 0, arc_ry = sp ! 1, arc_xAxisRotation = sp ! 2,
           arc_largeArcFlag = (sp ! 3 \<noteq> 0), arc_sweepFlag = (sp ! 4 \<noteq> 0)\<rparr>
   in rebuiltPath (dispatch random jitter CHR ''A'' relative sp s) =
        rebuiltPath s @ map (\<lambda>k. jittered_cubic random jitter (randomCalls s + 6 * k) (beziers ! k))
                          [0..<length beziers] \<and>
      randomCalls (dispatch random jitter CHR ''A'' relative sp s) =
        randomCalls s + 6 * length beziers"
  by (simp add: dispatch_def arc_command_def Let_def resolve_def foldl_arc_emit_cubics)

lemma general_group_coords:
  assumes "upper \<in> set ''MCSQT''" and "paramCounts upper = Some (length sp)"
  shows "rebuiltPath (dispatch random jitter upper relative sp s) =
     rebuiltPath s @ [Cmd upper (map (\<lambda>i. distortCoord random jitter (randomCalls s + i)
        (resolve relative (sp ! i)
           (if even i then pt_x (currentPoint s) else pt_y (currentPoint s))))
        [0..<length sp])] \<and>
   randomCalls (dispatch random jitter upper relative sp s) = randomCalls s + length sp"
proof -
  from assms have ev: "even (length sp)"
    by (auto simp: paramCounts_def split: if_splits)
  have d: "dispatch random jitter upper relative sp s = general_command random jitter upper relative sp s"
    using assms(1) by (auto simp: dispatch_def)
  show ?thesis
    unfolding d using assms(1)
    by (auto simp: general_command_def Let_def distort_pairs_map [OF ev])
qed

text \<open>
  Claim C1, amended. For every input path, every piece of the output is a Move, Cubic or
  Close command, or an S, Q or T command when the input holds that command, or an L command
  when the input holds an H or a V, or the text of a command of the input whose letter is
  not a path command. The pieces come about as follows. A command whose letter is not a path
  command appends its own text. A Z appends one Close command and draws no random value.
  Any other command acts as the succession of its whole parameter groups, each on the state
  the one before has left. One group of an L appends exactly one Cubic, made of the jittered
  control points and end point that \<open>lineToBezier\<close> gives from the current point to the
  absolute end point. One group of an A appends one such Cubic for each segment that
  \<open>arcToCubicBeziers\<close> returns, in order, six random values being drawn for each. One group
  of an M, C, S, Q or T appends exactly one command under the same letter, whose \<open>i\<close>-th
  number is the \<open>i\<close>-th parameter, made absolute and then jittered with the \<open>i\<close>-th random
  value drawn for the group. So a line or an arc of the input is never emitted under its own
  letter, while S, Q and T are. What one group of an H or a V appends is not part of the
  statement.
\<close>

theorem emitted_commands:
  "list_all (allowed_piece d) (rebuiltPath (run_path random n d jitter)) \<and>
   (paramCounts (toUpperCase u) = None \<longrightarrow>
      process_command random jitter st (u, uStr) =
        st\<lparr>rebuiltPath := rebuiltPath st @ [Raw (u # uStr)]\<rparr>) \<and>
   (toUpperCase z = CHR ''Z'' \<longrightarrow>
      rebuiltPath (process_command random jitter st (z, zStr)) =
        rebuiltPath st @ [Cmd CHR ''Z'' []] \<and>
      randomCalls (process_command random jitter st (z, zStr)) = randomCalls st) \<and>
   (paramCounts (toUpperCase command) = Some paramCount \<and> toUpperCase command \<noteq> CHR ''Z'' \<longrightarrow>
      process_command random jitter st (command, paramsStr) =
        foldl (\<lambda>s sp. dispatch random jitter (toUpperCase command) (command \<noteq> toUpperCase command) sp s)
          st (whole_groups paramCount (parseParams paramsStr))) \<and>
   (rebuiltPath (dispatch random jitter CHR ''L'' relative sp s) =
      rebuiltPath s @ [jittered_cubic random jitter (randomCalls s)
         (lineToBezier (currentPoint s)
            \<lparr>pt_x = resolve relative (sp ! 0) (pt_x (currentPoint s)),
             pt_y = resolve relative (sp ! 1) (pt_y (currentPoint s))\<rparr>)] \<and>
    randomCalls (dispatch random jitter CHR ''L'' relative sp s) = randomCalls s + 6) \<and>
   (let beziers = arcToCubicBeziers
          \<lparr>arc_px = pt_x (currentPoint s), arc_py = pt_y (currentPoint s),
           arc_cx = resolve relative (sp ! 5) (pt_x (currentPoint s)),
           arc_cy = resolve relative (sp ! 6) (pt_y (currentPoint s)),
           arc_rx = sp ! 0, arc_ry = sp ! 1, arc_xAxisRotation = sp ! 2,
           arc_largeArcFlag = (sp ! 3 \<noteq> 0), arc_sweepFlag = (sp ! 4 \<noteq> 0)\<rparr>
    in rebuiltPath (dispatch random jitter CHR ''A'' relative sp s) =
         rebuiltPath s @ map (\<lambda>k. jittered_cubic random jitter (randomCalls s + 6 * k) (beziers ! k))
                           [0..<length beziers] \<and>
       randomCalls (dispatch random jitter CHR ''A'' relative sp s) =
         randomCalls s + 6 * length beziers) \<and>
   (upper \<in> set ''MCSQT'' \<and> paramCounts upper = Some (length sp) \<longrightarrow>
      rebuiltPath (dispatch random jitter upper relative sp s) =
        rebuiltPath s @ [Cmd upper (map (\<lambda>i. distortCoord random jitter (randomCalls s + i)
           (resolve relative (sp ! i)
              (if even i then pt_x (currentPoint s) else pt_y (currentPoint s))))
           [0..<length sp])] \<and>
      randomCalls (dispatch random jitter upper relative sp s) = randomCalls s + length sp)"
proof -
  have z: "toUpperCase z = CHR ''Z'' \<longrightarrow>
      rebuiltPath (process_command random jitter st (z, zStr)) =
        rebuiltPath st @ [Cmd CHR ''Z'' []] \<and>
      randomCalls (process_command random jitter st (z, zStr)) = randomCalls st"
    by (simp add: process_command_close close_path_def)
  show ?thesis
    using run_path_allowed [of d random n jitter]
      process_command_unknown [of u random jitter st uStr] z
      process_command_groups [of command paramCount random jitter st paramsStr]
      line_group [of random jitter relative sp s]
      arc_group [of s relative sp random jitter]
      general_group_coords [of upper sp random jitter relative s]
    by blast
qed

lemma tokenize_MlZ:
  "tokenize ''M0,0 l3,0 Z'' = [(CHR ''M'', ''0,0 ''), (CHR ''l'', ''3,0 ''), (CHR ''Z'', [])]"
  by code_simp

lemma toUpperCase_lower:
  "toUpperCase CHR ''l'' = CHR ''L''" "toUpperCase CHR ''z'' = CHR ''Z''"
  "toUpperCase CHR ''x'' = CHR ''X''"
  by code_simp+

lemma parseParams_3_0: "parseParams ''3,0 '' = [3, 0]"
  by code_simp

lemma fl_small:
  "fl 1 = 1" "fl 2 = 2" "fl 3 = 3" "fl 4 = 4" "fl 6 = 6"
  "fl (1 / 2) = 1 / 2" "fl (3 / 2) = 3 / 2" "fl (5 / 2) = 5 / 2"
  "fl (- (1 / 4)) = - (1 / 4)" "fl (- (1 / 2)) = - (1 / 2)"
  by code_simp+

lemma distortCoord_small:
  "distortCoord (constant_random (1 / 4)) 1 k 0 = - (1 / 2)"
  "distortCoord (constant_random (1 / 4)) 1 k 1 = 1 / 2"
  "distortCoord (constant_random (1 / 4)) 1 k 2 = 3 / 2"
  "distortCoord (constant_random (1 / 4)) 1 k 3 = 5 / 2"
  by (simp_all add: distortCoord_def constant_random_def js_add_def js_sub_def js_mul_def
      fl_small)

lemma lineToBezier_3:
  "lineToBezier \<lparr>pt_x = 0, pt_y = 0\<rparr> \<lparr>pt_x = 3, pt_y = 0\<rparr> =
     (\<lparr>pt_x = 0, pt_y = 0\<rparr>, \<lparr>pt_x = 1, pt_y = 0\<rparr>, \<lparr>pt_x = 2, pt_y = 0\<rparr>, \<lparr>pt_x = 3, pt_y = 0\<rparr>)"
  by (simp add: lineToBezier_def js_add_def js_sub_def js_mul_def js_div_def fl_small)

theorem emitted_commands_witness:
  "paramCounts (toUpperCase CHR ''x'') = None \<and> toUpperCase CHR ''z'' = CHR ''Z'' \<and>
   paramCounts (toUpperCase CHR ''l'') = Some 2 \<and> toUpperCase CHR ''l'' \<noteq> CHR ''Z'' \<and>
   CHR ''M'' \<in> set ''MCSQT'' \<and> paramCounts CHR ''M'' = Some (length [3, 0 :: number]) \<and>
   list_all (\<lambda>p. piece_letter p = Some CHR ''M'' \<or> piece_letter p = Some CHR ''C'' \<or>
                  piece_letter p = Some CHR ''Z'')
     (rebuiltPath (run_path (constant_random (1 / 4)) 0 ''M0,0 l3,0 Z'' 1)) \<and>
   rebuiltPath (process_command (constant_random (1 / 4)) 1 (initial_state 0) (CHR ''x'', ''1'')) =
     [Raw ''x1''] \<and>
   rebuiltPath (process_command (constant_random (1 / 4)) 1 (initial_state 0) (CHR ''z'', [])) =
     [Cmd CHR ''Z'' []] \<and>
   rebuiltPath (process_command (constant_random (1 / 4)) 1 (initial_state 0) (CHR ''l'', ''3,0 '')) =
     [Cmd CHR ''C'' [1 / 2, - (1 / 2), 3 / 2, - (1 / 2), 5 / 2, - (1 / 2)]] \<and>
   rebuiltPath (dispatch (constant_random (1 / 4)) 1 CHR ''M'' True [3, 0] (initial_state 0)) =
     [Cmd CHR ''M'' [5 / 2, - (1 / 2)]]"
proof -
  have h: "paramCounts (toUpperCase CHR ''x'') = None" "toUpperCase CHR ''z'' = CHR ''Z''"
    "paramCounts (toUpperCase CHR ''l'') = Some 2" "toUpperCase CHR ''l'' \<noteq> CHR ''Z''"
    "CHR ''M'' \<in> set ''MCSQT''" "paramCounts CHR ''M'' = Some (length [3, 0 :: number])"
    by (simp_all add: toUpperCase_lower paramCounts_def)
  note t = emitted_commands [where d = "''M0,0 l3,0 Z''" and random = "constant_random (1 / 4)"
      and n = 0 and jitter = 1 and st = "initial_state 0" and u = "CHR ''x''" and uStr = "''1''"
      and z = "CHR ''z''" and zStr = "[]" and command = "CHR ''l''" and paramCount = 2
      and paramsStr = "''3,0 ''" and relative = True and sp = "[3, 0]" and s = "initial_state 0"
      and upper = "CHR ''M''"]
  have a: "list_all (allowed_piece ''M0,0 l3,0 Z'')
     (rebuiltPath (run_path (constant_random (1 / 4)) 0 ''M0,0 l3,0 Z'' 1))"
    using t by blast
  have "allowed_piece ''M0,0 l3,0 Z'' p \<Longrightarrow>
        piece_letter p = Some CHR ''M'' \<or> piece_letter p = Some CHR ''C'' \<or>
        piece_letter p = Some CHR ''Z''" for p
    by (cases p)
       (auto simp: allowed_piece_def letters_of_def tokenize_MlZ toUpperCase_upper
          toUpperCase_lower paramCounts_def)
  with a have 1: "list_all (\<lambda>p. piece_letter p = Some CHR ''M'' \<or> piece_letter p = Some CHR ''C'' \<or>
                  piece_letter p = Some CHR ''Z'')
     (rebuiltPath (run_path (constant_random (1 / 4)) 0 ''M0,0 l3,0 Z'' 1))"
    by (simp add: list_all_iff)
  have 2: "rebuiltPath (process_command (constant_random (1 / 4)) 1 (initial_state 0) (CHR ''x'', ''1'')) =
     [Raw ''x1'']"
    using t h(1) by (simp add: initial_state_def)
  have 3: "rebuiltPath (process_command (constant_random (1 / 4)) 1 (initial_state 0) (CHR ''z'', [])) =
     [Cmd CHR ''Z'' []]"
    using t h(2) by (simp add: initial_state_def)
  have g: "whole_groups 2 [3, 0 :: number] = [[3, 0]]"
    by (simp add: whole_groups.simps [of 2])
  have l: "rebuiltPath (dispatch (constant_random (1 / 4)) 1 CHR ''L'' True [3, 0] (initial_state 0)) =
     [Cmd CHR ''C'' [1 / 2, - (1 / 2), 3 / 2, - (1 / 2), 5 / 2, - (1 / 2)]]"
    using t
    by (simp add: initial_state_def resolve_def js_add_def fl_small lineToBezier_3
        jittered_cubic_def distortCoord_small)
  have "process_command (constant_random (1 / 4)) 1 (initial_state 0) (CHR ''l'', ''3,0 '') =
        dispatch (constant_random (1 / 4)) 1 CHR ''L'' True [3, 0] (initial_state 0)"
    using t h(3,4) by (simp add: parseParams_3_0 g toUpperCase_lower)
  with l have 4: "rebuiltPath (process_command (constant_random (1 / 4)) 1 (initial_state 0)
        (CHR ''l'', ''3,0 '')) =
     [Cmd CHR ''C'' [1 / 2, - (1 / 2), 3 / 2, - (1 / 2), 5 / 2, - (1 / 2)]]"
    by simp
  have 5: "rebuiltPath (dispatch (constant_random (1 / 4)) 1 CHR ''M'' True [3, 0] (initial_state 0)) =
     [Cmd CHR ''M'' [5 / 2, - (1 / 2)]]"
    using t h(5,6)
    by (simp add: initial_state_def resolve_def js_add_def fl_small distortCoord_small
        upt_rec [of 0] upt_rec [of 1] upt_rec [of 2])
  show ?thesis
    using h 1 2 3 4 5 by blast
qed

lemma tokenize_Q: "tokenize ''Q1,2 3,4'' = [(CHR ''Q'', ''1,2 3,4'')]"
  by code_simp

lemma parseParams_Q: "parseParams ''1,2 3,4'' = [1, 2, 3, 4]"
  by code_simp

lemma str_small: "number_to_string 1 = ''1''" "number_to_string 2 = ''2''"
  "number_to_string 3 = ''3''" "number_to_string 4 = ''4''"
  by code_simp+

text \<open>
  Claim C1 as stated fails: a quadratic command of the input is emitted as a quadratic
  command, not as a cubic.
\<close>

theorem quadratic_reemitted:
  "distortPath (constant_random (1 / 2)) 0 ''Q1,2 3,4'' 0 = ''Q 1 2 3 4''"
  by (simp add: distortPath_def run_path_def tokenize_Q process_command_def toUpperCase_upper
      parseParams_Q paramCounts_def segments_loop.simps [of _ _ _ _ _ "[1, 2, 3, 4]"]
      segments_loop_nil dispatch_def general_command_def
      distortCoord_zero fl_small initial_state_def Let_def render_def str_small js_trim_def
      is_space_def)

section \<open>The layers drawn\<close>

lemma drafty_pass_outside:
  "outside (drafty_pass drawPathFn random jitter svg d attrs i w) =
     drawPathFn svg (distortPath random (randomUsed w) d jitter)
       (layer_attributes (i = 0) (object_at w attrs)) (outside w)"
  by (auto simp: drafty_pass_def spread_copy_def new_object_def set_prop_def get_prop_def
      layer_attributes_def object_at_def Let_def fun_upd_twist split: option.splits)

lemma drafty_pass_objects:
  "b \<noteq> nextRef w \<Longrightarrow> objects (drafty_pass drawPathFn random jitter svg d attrs i w) b = objects w b"
  by (auto simp: drafty_pass_def spread_copy_def new_object_def set_prop_def get_prop_def Let_def)

lemma drafty_pass_nextRef:
  "nextRef (drafty_pass drawPathFn random jitter svg d attrs i w) = nextRef w + 1"
  by (auto simp: drafty_pass_def spread_copy_def new_object_def set_prop_def get_prop_def Let_def)

lemma layer_attributes_ok: "layer_ok i (layer_attributes (i = 0) a)"
  by (simp add: layer_ok_def layer_attributes_def)

lemma layer_attributes_other:
  "k \<noteq> ''fill'' \<Longrightarrow> k \<noteq> ''stroke'' \<Longrightarrow> layer_attributes b a k = a k"
  by (simp add: layer_attributes_def)

lemma drafty_loop_objects:
  "b < nextRef w \<Longrightarrow>
   objects (drafty_loop drawPathFn random jitter repeats svg d attrs i w) b = objects w b"
proof (induction drawPathFn random jitter repeats svg d attrs i w rule: drafty_loop.induct)
  case (1 drawPathFn random jitter repeats svg d attrs i w)
  show ?case
  proof (cases "i < repeats + 1")
    case True
    have "b < nextRef (drafty_pass drawPathFn random jitter svg d attrs i w)"
      using 1(2) by (simp add: drafty_pass_nextRef)
    then have "objects (drafty_loop drawPathFn random jitter repeats svg d attrs (i + 1)
                 (drafty_pass drawPathFn random jitter svg d attrs i w)) b =
               objects (drafty_pass drawPathFn random jitter svg d attrs i w) b"
      by (rule "1.IH" [OF True])
    also have "\<dots> = objects w b"
      using 1(2) by (simp add: drafty_pass_objects)
    finally show ?thesis
      using True by (subst drafty_loop.simps) simp
  next
    case False
    then show ?thesis by (subst drafty_loop.simps) simp
  qed
qed

lemma drafty_loop_calls_aux:
  "f = recorder \<Longrightarrow>
   \<exists>new. outside (drafty_loop f random jitter repeats svg d attrs i w) = outside w @ new \<and>
         length new = nat (repeats + 1 - i) \<and>
         (\<forall>k < length new. layer_ok (i + int k) (snd (snd (new ! k))))"
proof (induction f random jitter repeats svg d attrs i w rule: drafty_loop.induct)
  case (1 f random jitter repeats svg d attrs i w)
  note f = \<open>f = recorder\<close>
  show ?case
  proof (cases "i < repeats + 1")
    case True
    define w' where "w' = drafty_pass f random jitter svg d attrs i w"
    define call where "call = (svg, distortPath random (randomUsed w) d jitter,
                                layer_attributes (i = 0) (object_at w attrs))"
    have o: "outside w' = outside w @ [call]"
      by (simp add: w'_def call_def drafty_pass_outside recorder_def f)
    from "1.IH" [OF True f] obtain new where
      n: "outside (drafty_loop f random jitter repeats svg d attrs (i + 1) w') = outside w' @ new"
        "length new = nat (repeats + 1 - (i + 1))"
        "\<forall>k < length new. layer_ok (i + 1 + int k) (snd (snd (new ! k)))"
      unfolding w'_def by blast
    have c: "layer_ok i (snd (snd call))"
      by (simp add: call_def layer_attributes_ok)
    have "\<forall>k < length (call # new). layer_ok (i + int k) (snd (snd ((call # new) ! k)))"
    proof (intro allI impI)
      fix k assume "k < length (call # new)"
      then show "layer_ok (i + int k) (snd (snd ((call # new) ! k)))"
      proof (cases k)
        case 0
        with c show ?thesis by simp
      next
        case (Suc j)
        with \<open>k < length (call # new)\<close> have "j < length new" by simp
        with n(3) have "layer_ok (i + 1 + int j) (snd (snd (new ! j)))" by blast
        then show ?thesis using Suc by (simp add: add.assoc)
      qed
    qed
    moreover have "length (call # new) = nat (repeats + 1 - i)"
      using n(2) True by simp
    moreover have "outside (drafty_loop f random jitter repeats svg d attrs i w) =
                   outside w @ (call # new)"
      using True n(1) o by (subst drafty_loop.simps) (simp add: w'_def)
    ultimately show ?thesis by blast
  next
    case False
    then show ?thesis by (subst drafty_loop.simps) simp
  qed
qed

lemma drafty_loop_calls:
  "\<exists>new. outside (drafty_loop recorder random jitter repeats svg d attrs i w) = outside w @ new \<and>
         length new = nat (repeats + 1 - i) \<and>
         (\<forall>k < length new. layer_ok (i + int k) (snd (snd (new ! k))))"
  by (rule drafty_loop_calls_aux [OF refl])

text \<open>
  Claim C6. With \<open>repeats = r\<close>, \<open>0 \<le> r\<close>, one call of the function returned by
  \<open>makeDraftyPath\<close> makes exactly \<open>r + 1\<close> draw calls, after those made before; the first has
  \<open>stroke\<close> set to \<open>none\<close> and the calls 1 to \<open>r\<close> have \<open>fill\<close> set to \<open>none\<close>. The draw calls
  are read off a collaborator that records them in order.
\<close>

theorem layer_count:
  assumes "opt_repeats options = Some r" and "0 \<le> r"
  shows "let w' = makeDraftyPath random recorder options svg d attrsArg w;
             calls = drop (length (outside w)) (outside w')
         in take (length (outside w)) (outside w') = outside w \<and>
            length calls = nat (r + 1) \<and>
            snd (snd (calls ! 0)) ''stroke'' = Some ''none'' \<and>
            (\<forall>k. 1 \<le> k \<and> k \<le> nat r \<longrightarrow> snd (snd (calls ! k)) ''fill'' = Some ''none'')"
proof -
  define jitter where "jitter = (case opt_jitter options of Some j \<Rightarrow> j | None \<Rightarrow> fl (12 / 10))"
  define a0 where "a0 = (case attrsArg of Some r \<Rightarrow> (r, w) | None \<Rightarrow> new_object Map.empty w)"
  have ow: "outside (snd a0) = outside w"
    by (simp add: a0_def new_object_def split: option.splits)
  have m: "makeDraftyPath random recorder options svg d attrsArg w =
           drafty_loop recorder random jitter r svg d (fst a0) 0 (snd a0)"
    using assms(1) by (simp add: makeDraftyPath_def jitter_def a0_def Let_def split: prod.splits)
  from drafty_loop_calls [of random jitter r svg d "fst a0" 0 "snd a0"] obtain new where
    n: "outside (drafty_loop recorder random jitter r svg d (fst a0) 0 (snd a0)) = outside (snd a0) @ new"
       "length new = nat (r + 1)"
       "\<forall>k < length new. layer_ok (int k) (snd (snd (new ! k)))"
    by auto
  have z: "snd (snd (new ! 0)) ''stroke'' = Some ''none''"
    using n(2,3) assms(2) by (auto simp: layer_ok_def)
  have p: "snd (snd (new ! k)) ''fill'' = Some ''none''" if "1 \<le> k" "k \<le> nat r" for k
  proof -
    have "k < length new" using that n(2) assms(2) by simp
    with n(3) have "layer_ok (int k) (snd (snd (new ! k)))" by blast
    with that show ?thesis by (simp add: layer_ok_def)
  qed
  show ?thesis
    using z p n(1,2) by (simp add: m ow Let_def)
qed



lemma drafty_loop_attrs_aux:
  "f = recorder \<Longrightarrow> attrs < nextRef w \<Longrightarrow>
   map (\<lambda>call. snd (snd call)) (outside (drafty_loop f random jitter repeats svg d attrs i w)) =
     map (\<lambda>call. snd (snd call)) (outside w) @
     map (\<lambda>k. layer_attributes (k = 0) (object_at w attrs)) [i..repeats]"
proof (induction f random jitter repeats svg d attrs i w rule: drafty_loop.induct)
  case (1 f random jitter repeats svg d attrs i w)
  note f = \<open>f = recorder\<close> and a = \<open>attrs < nextRef w\<close>
  show ?case
  proof (cases "i < repeats + 1")
    case True
    define w' where "w' = drafty_pass f random jitter svg d attrs i w"
    have a': "attrs < nextRef w'"
      using a by (simp add: w'_def drafty_pass_nextRef)
    have same: "object_at w' attrs = object_at w attrs"
      using a by (simp add: object_at_def w'_def drafty_pass_objects)
    have o: "map (\<lambda>call. snd (snd call)) (outside w') =
             map (\<lambda>call. snd (snd call)) (outside w) @ [layer_attributes (i = 0) (object_at w attrs)]"
      by (simp add: w'_def drafty_pass_outside recorder_def f)
    have u: "[i..repeats] = i # [i + 1..repeats]"
      using True by (simp add: upto_rec1)
    have "map (\<lambda>call. snd (snd call)) (outside (drafty_loop f random jitter repeats svg d attrs (i + 1) w')) =
          map (\<lambda>call. snd (snd call)) (outside w') @
          map (\<lambda>k. layer_attributes (k = 0) (object_at w' attrs)) [i + 1..repeats]"
      using "1.IH" [OF True f] a' unfolding w'_def by blast
    then show ?thesis
      using True o u same by (subst drafty_loop.simps) (simp add: w'_def)
  next
    case False
    then show ?thesis by (subst drafty_loop.simps) simp
  qed
qed

text \<open>
  Claim C10. A call of the function returned by \<open>makeDraftyPath\<close> with a reference to an
  attribute object leaves that object, and every other object that existed before the call,
  as it was, whatever the drawing collaborator is; and the attributes each draw call
  receives are those of the caller except for \<open>fill\<close> and \<open>stroke\<close>. (The collaborator is
  given the copy only, and is taken not to write to the store.)
\<close>

theorem attrs_unchanged:
  assumes "a < nextRef w" and "a < nextRef v" and "objects v a = Some content"
  shows "(let w' = makeDraftyPath random drawPathFn options svg d (Some a) w
          in \<forall>b < nextRef w. objects w' b = objects w b) \<and>
         (let v' = makeDraftyPath random recorder options svg d (Some a) v
          in objects v' a = Some content \<and>
             (\<forall>call \<in> set (drop (length (outside v)) (outside v')).
                \<forall>k. k \<noteq> ''fill'' \<and> k \<noteq> ''stroke'' \<longrightarrow> snd (snd call) k = content k))"
proof -
  have 1: "objects (makeDraftyPath random drawPathFn options svg d (Some a) w) b = objects w b"
    if "b < nextRef w" for b
    using that by (simp add: makeDraftyPath_def Let_def drafty_loop_objects)
  have 2: "objects (makeDraftyPath random recorder options svg d (Some a) v) a = Some content"
    using assms(2,3) by (simp add: makeDraftyPath_def Let_def drafty_loop_objects)
  define jitter where "jitter = (case opt_jitter options of Some j \<Rightarrow> j | None \<Rightarrow> fl (12 / 10))"
  define repeats where "repeats = (case opt_repeats options of Some r \<Rightarrow> r | None \<Rightarrow> 3)"
  define v' where "v' = makeDraftyPath random recorder options svg d (Some a) v"
  have m: "v' = drafty_loop recorder random jitter repeats svg d a 0 v"
    by (simp add: v'_def makeDraftyPath_def jitter_def repeats_def Let_def)
  have c: "object_at v a = content"
    using assms(3) by (simp add: object_at_def)
  have "map (\<lambda>call. snd (snd call)) (outside v') =
        map (\<lambda>call. snd (snd call)) (outside v) @
        map (\<lambda>k. layer_attributes (k = 0) content) [0..repeats]"
    unfolding m using drafty_loop_attrs_aux [OF refl assms(2), of random jitter repeats svg d 0]
    by (simp add: c)
  then have "map (\<lambda>call. snd (snd call)) (drop (length (outside v)) (outside v')) =
             map (\<lambda>k. layer_attributes (k = 0) content) [0..repeats]"
    by (simp flip: drop_map)
  then have im: "snd (snd call) \<in> (\<lambda>k. layer_attributes (k = 0) content) ` set [0..repeats]"
    if "call \<in> set (drop (length (outside v)) (outside v'))" for call
    using that by (metis (no_types, lifting) image_eqI list.set_map)
  have 3: "snd (snd call) k = content k"
    if "call \<in> set (drop (length (outside v)) (outside v'))" "k \<noteq> ''fill''" "k \<noteq> ''stroke''"
    for call k
  proof -
    from im [OF that(1)] obtain j :: int where "snd (snd call) = layer_attributes (j = 0) content"
      by blast
    then show ?thesis
      using that(2,3) by (simp add: layer_attributes_other)
  qed
  show ?thesis
    using 1 2 3 unfolding v'_def Let_def by blast
qed

theorem layer_count_witness:
  "opt_repeats \<lparr>opt_jitter = Some 0, opt_repeats = Some 1\<rparr> = Some 1 \<and> (0::int) \<le> 1 \<and>
   length (outside (makeDraftyPath (constant_random (1 / 2)) recorder
                      \<lparr>opt_jitter = Some 0, opt_repeats = Some 1\<rparr> () ''Z'' None sample_world)) = 2 \<and>
   snd (snd (outside (makeDraftyPath (constant_random (1 / 2)) recorder
                      \<lparr>opt_jitter = Some 0, opt_repeats = Some 1\<rparr> () ''Z'' None sample_world) ! 0))
     ''stroke'' = Some ''none'' \<and>
   snd (snd (outside (makeDraftyPath (constant_random (1 / 2)) recorder
                      \<lparr>opt_jitter = Some 0, opt_repeats = Some 1\<rparr> () ''Z'' None sample_world) ! 1))
     ''fill'' = Some ''none''"
proof -
  have h: "opt_repeats \<lparr>opt_jitter = Some 0, opt_repeats = Some 1\<rparr> = Some 1" "(0::int) \<le> 1"
    by simp_all
  have e: "outside sample_world = []" by (simp add: sample_world_def)
  show ?thesis
    using layer_count [OF h, of "constant_random (1 / 2)" "()" "''Z''" None sample_world]
    by (simp add: Let_def e)
qed

theorem attrs_unchanged_witness:
  "(0::nat) < nextRef sample_world \<and> objects sample_world 0 = Some [''id'' \<mapsto> ''p'', ''fill'' \<mapsto> ''red''] \<and>
   objects (makeDraftyPath (constant_random (1 / 2)) recorder
             \<lparr>opt_jitter = Some 0, opt_repeats = Some 1\<rparr> () ''Z'' (Some 0) sample_world) 0 =
     Some [''id'' \<mapsto> ''p'', ''fill'' \<mapsto> ''red''] \<and>
   list_all (\<lambda>call. snd (snd call) ''id'' = Some ''p'')
     (outside (makeDraftyPath (constant_random (1 / 2)) recorder
             \<lparr>opt_jitter = Some 0, opt_repeats = Some 1\<rparr> () ''Z'' (Some 0) sample_world))"
proof -
  have h: "(0::nat) < nextRef sample_world" "objects sample_world 0 = Some [''id'' \<mapsto> ''p'', ''fill'' \<mapsto> ''red'']"
    by (simp_all add: sample_world_def)
  have e: "outside sample_world = []" by (simp add: sample_world_def)
  show ?thesis
    using h attrs_unchanged [OF h(1) h(1) h(2), of "constant_random (1 / 2)" recorder
        "\<lparr>opt_jitter = Some 0, opt_repeats = Some 1\<rparr>" "()" "''Z''"]
    by (simp add: Let_def e list_all_iff)
qed

section \<open>The concrete scenario\<close>

lemma fl_10: "fl 10 = 10"
  by code_simp

lemma fl_20: "fl 20 = 20"
  by code_simp

lemma fl_third: "fl (10 / 3) = 7505999378950827 / 2251799813685248"
  by code_simp

lemma fl_third_fix:
  "fl (7505999378950827 / 2251799813685248) = 7505999378950827 / 2251799813685248"
  by code_simp

lemma fl_two_thirds: "fl (20 / 3) = 7505999378950827 / 1125899906842624"
  by code_simp

lemma fl_two_thirds_fix:
  "fl (7505999378950827 / 1125899906842624) = 7505999378950827 / 1125899906842624"
  by code_simp

lemma str_0: "number_to_string 0 = ''0''"
  by (simp add: number_to_string_def)

lemma str_10: "number_to_string 10 = ''10''"
  by code_simp

lemma str_third:
  "number_to_string (7505999378950827 / 2251799813685248) = ''3.3333333333333335''"
  by code_simp

lemma str_two_thirds:
  "number_to_string (7505999378950827 / 1125899906842624) = ''6.666666666666667''"
  by code_simp

lemma tokenize_scenario:
  "tokenize ''M0,0 L10,0 L10,10 Z'' =
     [(CHR ''M'', ''0,0 ''), (CHR ''L'', ''10,0 ''), (CHR ''L'', ''10,10 ''), (CHR ''Z'', [])]"
  by code_simp

lemma parseParams_0_0: "parseParams ''0,0 '' = [0, 0]"
  by code_simp

lemma parseParams_10_0: "parseParams ''10,0 '' = [10, 0]"
  by code_simp

lemma parseParams_10_10: "parseParams ''10,10 '' = [10, 10]"
  by code_simp

lemma scenario_M:
  "process_command random 0 (initial_state n) (CHR ''M'', ''0,0 '') =
     \<lparr>currentPoint = \<lparr>pt_x = 0, pt_y = 0\<rparr>, subpathStart = \<lparr>pt_x = 0, pt_y = 0\<rparr>,
      rebuiltPath = [Cmd CHR ''M'' [0, 0]], randomCalls = n + 2\<rparr>"
  by (simp add: process_command_def toUpperCase_upper parseParams_0_0 paramCounts_def
      segments_loop.simps dispatch_def general_command_def distortCoord_zero initial_state_def
      Let_def)

lemma scenario_L1:
  "process_command random 0
     \<lparr>currentPoint = \<lparr>pt_x = 0, pt_y = 0\<rparr>, subpathStart = \<lparr>pt_x = 0, pt_y = 0\<rparr>,
      rebuiltPath = ps, randomCalls = n\<rparr> (CHR ''L'', ''10,0 '') =
     \<lparr>currentPoint = \<lparr>pt_x = 10, pt_y = 0\<rparr>, subpathStart = \<lparr>pt_x = 0, pt_y = 0\<rparr>,
      rebuiltPath = ps @ [Cmd CHR ''C'' [7505999378950827 / 2251799813685248, 0,
                                         7505999378950827 / 1125899906842624, 0, 10, 0]],
      randomCalls = n + 6\<rparr>"
  by (simp add: process_command_def toUpperCase_upper parseParams_10_0 paramCounts_def
      segments_loop.simps dispatch_def line_command_def lineToBezier_def distortCoord_zero
      js_add_def js_sub_def js_mul_def js_div_def
      fl_10 fl_20 fl_third fl_third_fix fl_two_thirds fl_two_thirds_fix)

lemma scenario_L2:
  "process_command random 0
     \<lparr>currentPoint = \<lparr>pt_x = 10, pt_y = 0\<rparr>, subpathStart = \<lparr>pt_x = 0, pt_y = 0\<rparr>,
      rebuiltPath = ps, randomCalls = n\<rparr> (CHR ''L'', ''10,10 '') =
     \<lparr>currentPoint = \<lparr>pt_x = 10, pt_y = 10\<rparr>, subpathStart = \<lparr>pt_x = 0, pt_y = 0\<rparr>,
      rebuiltPath = ps @ [Cmd CHR ''C'' [10, 7505999378950827 / 2251799813685248,
                                         10, 7505999378950827 / 1125899906842624, 10, 10]],
      randomCalls = n + 6\<rparr>"
  by (simp add: process_command_def toUpperCase_upper parseParams_10_10 paramCounts_def
      segments_loop.simps dispatch_def line_command_def lineToBezier_def distortCoord_zero
      js_add_def js_sub_def js_mul_def js_div_def
      fl_10 fl_20 fl_third fl_third_fix fl_two_thirds fl_two_thirds_fix)

lemma scenario_Z:
  "process_command random 0 st (CHR ''Z'', []) =
     st\<lparr>rebuiltPath := rebuiltPath st @ [Cmd CHR ''Z'' []], currentPoint := subpathStart st\<rparr>"
  by (simp add: process_command_def toUpperCase_upper parseParams_empty paramCounts_def
      segments_loop.simps close_path_def)

lemma scenario_pieces:
  "rebuiltPath (run_path random n ''M0,0 L10,0 L10,10 Z'' 0) =
     [Cmd CHR ''M'' [0, 0],
      Cmd CHR ''C'' [7505999378950827 / 2251799813685248, 0,
                     7505999378950827 / 1125899906842624, 0, 10, 0],
      Cmd CHR ''C'' [10, 7505999378950827 / 2251799813685248,
                     10, 7505999378950827 / 1125899906842624, 10, 10],
      Cmd CHR ''Z'' []]"
  by (simp add: run_path_def tokenize_scenario scenario_M scenario_L1 scenario_L2 scenario_Z)

text \<open>
  Claim C4. On the input \<open>M0,0 L10,0 L10,10 Z\<close> with jitter 0 the interpreter returns
  \<open>M 0 0 C 3.3333333333333335 0 6.666666666666667 0 10 0 C 10 3.3333333333333335 10
  6.666666666666667 10 10 Z\<close>, whatever the random source gives.
\<close>

theorem concrete_scenario:
  "distortPath random n ''M0,0 L10,0 L10,10 Z'' 0 =
     ''M 0 0 C 3.3333333333333335 0 6.666666666666667 0 10 0 C 10 3.3333333333333335 10 6.666666666666667 10 10 Z''"
  by (simp add: distortPath_def scenario_pieces render_def str_0 str_10 str_third str_two_thirds
      js_trim_def is_space_def)

end
